theory Spec2Isabelle
  imports Complex_Main
begin

section \<open>Loan schedule simulator: data model\<close>

text \<open>
  A shallow embedding of \<^verbatim>\<open>loan_calc_lib.py\<close>. The faults Python raises are values of
  \<open>error\<close>: a float division by zero raises \<^verbatim>\<open>ZeroDivisionError\<close>, \<^verbatim>\<open>math.pow\<close>
  raises \<^verbatim>\<open>ValueError\<close> for a zero base with a negative exponent and
  \<^verbatim>\<open>OverflowError\<close> when an argument or the result leaves the range of a float,
  \<^verbatim>\<open>dataclasses.replace(None)\<close> raises \<^verbatim>\<open>TypeError\<close> and a list index out of range
  raises \<^verbatim>\<open>IndexError\<close>. Python's \<^verbatim>\<open>int\<close> is \<open>int\<close>.

  The payment calculator is written over any arithmetic, so that what is proved of it
  holds of floating-point arithmetic with its rounding. In the records and in the
  engine Python's \<^verbatim>\<open>float\<close> is read as \<open>real\<close>, with exact arithmetic: statements
  about the engine are written in the order in which the code computes, and none relies
  on an identity that rounding would break. The \<^verbatim>\<open>verbose\<close> printing is left out: it
  writes no variable.

  Fields keep the names of the source; \<open>term\<close>, \<open>type\<close> and \<open>length\<close> carry a prime,
  and a field name used by two classes is written with its record's name
  (\<open>Loan.amount\<close>, \<open>PrincipalPayment.amount\<close>).
\<close>

datatype error = ZeroDivisionError | ValueError | OverflowError | TypeError | IndexError

record Loan =
  name :: "string option"
  amount :: real
  rate :: real
  term' :: int
  fixed_period :: int
  var_rate :: "real option"

record Budget =
  name :: "string option"
  monthly_income :: real
  salary_rate_increase :: real
  monthly_expenses :: real
  expenses_rate_increase :: real
  monthly_prop_tax :: real
  min_principal_payment :: real
  month_offset :: int
  overflow_principal_percent :: "real option"
  overflow_principal_abs :: "real option"

datatype PaymentType = DIRECT | REAMORTIZING

record 'l PrincipalPayment =
  type' :: PaymentType
  amount :: real
  time :: int
  new_loan_terms :: "'l option"

record LoanEval =
  loan_name :: "string option"
  principal_remaining :: real
  principal_paid :: real
  interest_paid :: real
  length' :: int
  monthly_payments :: real

section \<open>The payment calculator\<close>

text \<open>
  The arithmetic that \<^verbatim>\<open>GetMonthlyPayment\<close> uses: the four operations on floats, the
  test of a divisor against zero, \<^verbatim>\<open>math.pow\<close> with its faults, and the conversion of
  an \<^verbatim>\<open>int\<close> to a float. For Python's floats the operations round, and may return an
  infinity or a NaN.
\<close>

record 'f arith =
  f_add :: "'f \<Rightarrow> 'f \<Rightarrow> 'f"
  f_sub :: "'f \<Rightarrow> 'f \<Rightarrow> 'f"
  f_mul :: "'f \<Rightarrow> 'f \<Rightarrow> 'f"
  f_div :: "'f \<Rightarrow> 'f \<Rightarrow> 'f"
  f_is_zero :: "'f \<Rightarrow> bool"
  f_pow :: "'f \<Rightarrow> int \<Rightarrow> error + 'f"
  f_of_int :: "int \<Rightarrow> 'f"

text \<open>Python's \<^verbatim>\<open>x / y\<close> on floats raises when the divisor is zero.\<close>

definition py_div :: "'f arith \<Rightarrow> 'f \<Rightarrow> 'f \<Rightarrow> error + 'f" where
  "py_div ar x y = (if f_is_zero ar y then Inl ZeroDivisionError else Inr (f_div ar x y))"

text \<open>
  \<^verbatim>\<open>GetMonthlyPayment\<close> (lines 95-100), on the amount, the rate and the term of the
  loan. The numerator's power is computed first, then the denominator's, then the
  division, then the product with the amount.
\<close>

definition GetMonthlyPayment_on :: "'f arith \<Rightarrow> 'f \<Rightarrow> 'f \<Rightarrow> int \<Rightarrow> error + 'f" where
  "GetMonthlyPayment_on ar a r n =
     (case py_div ar r (f_of_int ar (12 * 100)) of
        Inl e \<Rightarrow> Inl e
      | Inr monthly_int \<Rightarrow>
          (case f_pow ar (f_add ar (f_of_int ar 1) monthly_int) n of
             Inl e \<Rightarrow> Inl e
           | Inr p1 \<Rightarrow>
               (case f_pow ar (f_add ar (f_of_int ar 1) monthly_int) n of
                  Inl e \<Rightarrow> Inl e
                | Inr p2 \<Rightarrow>
                    (case py_div ar (f_mul ar monthly_int p1)
                            (f_sub ar p2 (f_of_int ar 1)) of
                       Inl e \<Rightarrow> Inl e
                     | Inr q \<Rightarrow> Inr (f_mul ar a q)))))"

text \<open>
  Exact arithmetic on the reals. A real number whose absolute value is at least
  \<open>2^1024 - 2^970\<close> is beyond the range of a float: it rounds to an infinity.
  \<^verbatim>\<open>math.pow(x, y)\<close> with an integer \<open>y\<close> raises \<^verbatim>\<open>OverflowError\<close> when \<open>y\<close> cannot be
  converted to a float or when the power is beyond the range, and \<^verbatim>\<open>ValueError\<close> for a
  zero base with a negative exponent; every other case is the power.
\<close>

definition float_overflow :: "real \<Rightarrow> bool" where
  "float_overflow v \<longleftrightarrow> 2 ^ 1024 - 2 ^ 970 \<le> \<bar>v\<bar>"

definition math_pow :: "real \<Rightarrow> int \<Rightarrow> error + real" where
  "math_pow x y =
     (if float_overflow (of_int y) then Inl OverflowError
      else if x = 0 \<and> y < 0 then Inl ValueError
      else if float_overflow (if 0 \<le> y then x ^ nat y else 1 / x ^ nat (- y))
      then Inl OverflowError
      else Inr (if 0 \<le> y then x ^ nat y else 1 / x ^ nat (- y)))"

definition real_arith :: "real arith" where
  "real_arith =
     \<lparr>f_add = (+), f_sub = (-), f_mul = (*), f_div = (/), f_is_zero = (\<lambda>x. x = 0),
      f_pow = math_pow, f_of_int = of_int\<rparr>"

text \<open>\<^verbatim>\<open>GetMonthlyPayment\<close> on a loan, as the engine calls it.\<close>

definition GetMonthlyPayment :: "Loan \<Rightarrow> error + real" where
  "GetMonthlyPayment loan =
     GetMonthlyPayment_on real_arith (Loan.amount loan) (Loan.rate loan) (term' loan)"

section \<open>The simulation engine\<close>

text \<open>
  The local variables of \<^verbatim>\<open>LoanCalc\<close> (lines 115-142). \<open>loan\<close> and \<open>budget\<close> are the
  copies made by \<^verbatim>\<open>dataclasses.replace\<close>, \<open>payments\<close> and \<open>exits\<close> the copies made by
  slicing; \<open>payments\<close> is held reversed, as the source leaves it, and popped from its end.
  \<open>reamor_loan\<close> is unbound (\<open>None\<close>) until the first reamortization. The list
  \<^verbatim>\<open>monthly_payments\<close> of line 142 is never read and is left out.

  The record is polymorphic in what the variables that name objects hold: in \<open>state\<close>
  they hold the objects' values, and in the engine on a store, further down, references.
\<close>

record ('l, 'b, 'ps, 'es, 'p) locals =
  loan :: 'l
  budget :: 'b
  payments :: 'ps
  exits :: 'es
  monthly_payment :: real
  remaining_principal :: real
  terms_paid :: int
  monthly_int :: real
  monthly_var_int :: real
  fixed_period :: int
  next_lump_sum :: "'p option"
  budget_savings :: real
  current_exit :: nat
  last_exit :: bool
  interest_paid :: real
  loan_evals :: "LoanEval list"
  reamor_loan :: "'l option"

type_synonym state =
  "(Loan, Budget, Loan PrincipalPayment list, int list, Loan PrincipalPayment) locals"

text \<open>
  \<^verbatim>\<open>0.0 if not v else v / (12 * 100)\<close> (lines 125 and 172): \<^verbatim>\<open>None\<close> and \<open>0.0\<close> are
  both false in Python.
\<close>

definition var_int_of :: "real option \<Rightarrow> real" where
  "var_int_of v = (case v of None \<Rightarrow> 0 | Some r \<Rightarrow> if r = 0 then 0 else r / (12 * 100))"

text \<open>Lines 115-142: the state before the first test of the loop.\<close>

definition init :: "Loan \<Rightarrow> Budget \<Rightarrow> Loan PrincipalPayment list \<Rightarrow> int list \<Rightarrow> error + state" where
  "init loan0 budget0 payments0 exits0 =
     (case GetMonthlyPayment loan0 of
        Inl e \<Rightarrow> Inl e
      | Inr mp \<Rightarrow>
          Inr \<lparr>loan = loan0, budget = budget0,
               payments = (if payments0 \<noteq> [] then butlast (rev payments0) else payments0),
               exits = exits0,
               monthly_payment = mp,
               remaining_principal = Loan.amount loan0,
               terms_paid = 0,
               monthly_int = Loan.rate loan0 / (12 * 100),
               monthly_var_int = var_int_of (var_rate loan0),
               fixed_period = Loan.fixed_period loan0,
               next_lump_sum = (if payments0 \<noteq> [] then Some (last (rev payments0)) else None),
               budget_savings = 0,
               current_exit = 0,
               last_exit = (exits0 = []),
               interest_paid = 0,
               loan_evals = [],
               reamor_loan = None\<rparr>)"

text \<open>The \<^verbatim>\<open>LoanEval\<close> built at lines 153-159 and again at lines 224-230.\<close>

definition snapshot :: "state \<Rightarrow> LoanEval" where
  "snapshot s =
     \<lparr>loan_name = Loan.name (loan s),
      principal_remaining = remaining_principal s,
      principal_paid = Loan.amount (loan s) - remaining_principal s,
      interest_paid = interest_paid s,
      length' = terms_paid s,
      monthly_payments = monthly_payment s\<rparr>"

text \<open>Lines 149-159: the exit check.\<close>

definition exit_check :: "state \<Rightarrow> error + state" where
  "exit_check s =
     (if last_exit s then Inr s
      else if \<not> current_exit s < length (exits s) then Inl IndexError
      else if terms_paid s = exits s ! current_exit s
      then Inr (s\<lparr>current_exit := current_exit s + 1,
                  last_exit := (current_exit s + 1 = length (exits s)),
                  loan_evals := loan_evals s @ [snapshot s]\<rparr>)
      else Inr s)"

text \<open>
  Lines 165-172: the reamortization. The copy \<open>reamor_loan\<close> gets the remaining principal
  as its amount, the payment is computed from it, then its \<open>fixed_period\<close> field is
  increased by \<open>terms_paid\<close>; the loop's variables \<open>monthly_payment\<close>, \<open>monthly_int\<close> and
  \<open>monthly_var_int\<close> are assigned, and no other.
\<close>

definition reamortize :: "Loan PrincipalPayment \<Rightarrow> state \<Rightarrow> error + state" where
  "reamortize p s =
     (case new_loan_terms p of
        None \<Rightarrow> Inl TypeError
      | Some terms \<Rightarrow>
          (let reamor = terms\<lparr>Loan.amount := remaining_principal s\<rparr> in
           case GetMonthlyPayment reamor of
             Inl e \<Rightarrow> Inl e
           | Inr mp \<Rightarrow>
               (let reamor2 = reamor\<lparr>Loan.fixed_period := Loan.fixed_period reamor + terms_paid s\<rparr>
                in Inr (s\<lparr>monthly_payment := mp,
                          monthly_int := Loan.rate reamor2 / (12 * 100),
                          monthly_var_int := var_int_of (var_rate reamor2),
                          reamor_loan := Some reamor2\<rparr>))))"

text \<open>Lines 162-177: the lump sum due this month, and the move to the next one.\<close>

definition lump_sum :: "state \<Rightarrow> error + state" where
  "lump_sum s =
     (case next_lump_sum s of
        None \<Rightarrow> Inr s
      | Some p \<Rightarrow>
          if time p = terms_paid s then
            (let s1 = s\<lparr>remaining_principal := remaining_principal s - PrincipalPayment.amount p\<rparr> in
             case (if type' p = REAMORTIZING then reamortize p s1 else Inr s1) of
               Inl e \<Rightarrow> Inl e
             | Inr s2 \<Rightarrow>
                 Inr (if payments s2 \<noteq> []
                      then s2\<lparr>next_lump_sum := Some (last (payments s2)),
                              payments := butlast (payments s2)\<rparr>
                      else s2\<lparr>next_lump_sum := None\<rparr>))
          else Inr s)"

text \<open>Lines 179-181: the savings sweep.\<close>

definition sweep :: "state \<Rightarrow> state" where
  "sweep s =
     (if budget_savings s > min_principal_payment (budget s)
      then s\<lparr>remaining_principal := remaining_principal s - budget_savings s,
              budget_savings := 0\<rparr>
      else s)"

text \<open>
  Lines 184-188: the month's available money and interest. The result is the pair of the
  locals \<open>monthly_savings\<close> and \<open>interest\<close>, with the state.
\<close>

definition accrue :: "state \<Rightarrow> real \<times> real \<times> state" where
  "accrue s =
     (let monthly_savings = monthly_income (budget s) -
            (monthly_expenses (budget s) + monthly_payment s + monthly_prop_tax (budget s));
          interest = monthly_int s * remaining_principal s
      in (monthly_savings, interest, s\<lparr>interest_paid := interest_paid s + interest\<rparr>))"

text \<open>
  Lines 194-197: the variable-rate surcharge, on \<open>monthly_savings\<close> and the state. It
  reads and writes numbers only, like the principal update and the month counter below,
  so it is the same function whatever the object variables hold.
\<close>

definition surcharge ::
  "real \<Rightarrow> ('l, 'b, 'ps, 'es, 'p) locals \<Rightarrow> real \<times> ('l, 'b, 'ps, 'es, 'p) locals" where
  "surcharge monthly_savings s =
     (if terms_paid s \<ge> fixed_period s then
        (let extra_interest = (monthly_var_int s - monthly_int s) * remaining_principal s
         in (monthly_savings - extra_interest,
             s\<lparr>interest_paid := interest_paid s + extra_interest\<rparr>))
      else (monthly_savings, s))"

text \<open>Line 198: the principal update.\<close>

definition amortize ::
  "real \<Rightarrow> ('l, 'b, 'ps, 'es, 'p) locals \<Rightarrow> ('l, 'b, 'ps, 'es, 'p) locals" where
  "amortize interest s =
     s\<lparr>remaining_principal := remaining_principal s - (monthly_payment s - interest)\<rparr>"

text \<open>
  Lines 201-204: the overflow. The first test is \<^verbatim>\<open>is not None\<close>; the second is the truth
  value of \<^verbatim>\<open>overflow_principal_abs\<close>, false for \<^verbatim>\<open>None\<close> and for \<open>0.0\<close>.
\<close>

definition overflow :: "real \<Rightarrow> state \<Rightarrow> state" where
  "overflow monthly_savings s =
     (case overflow_principal_percent (budget s) of
        Some pc \<Rightarrow> s\<lparr>budget_savings := budget_savings s + monthly_savings * (pc / 100)\<rparr>
      | None \<Rightarrow>
          (case overflow_principal_abs (budget s) of
             None \<Rightarrow> s
           | Some a \<Rightarrow>
               if a = 0 then s
               else s\<lparr>budget_savings := budget_savings s + min monthly_savings a\<rparr>))"

text \<open>Lines 206 and 216-218: the month counter and the yearly change of the budget.\<close>

definition advance ::
  "('l, 'b, 'ps, 'es, 'p) locals \<Rightarrow> ('l, 'b, 'ps, 'es, 'p) locals" where
  "advance s = s\<lparr>terms_paid := terms_paid s + 1\<rparr>"

definition annual :: "state \<Rightarrow> state" where
  "annual s =
     (if (terms_paid s + month_offset (budget s)) mod 12 = 0
      then s\<lparr>budget := (budget s)
              \<lparr>monthly_income := monthly_income (budget s) *
                   (1 + salary_rate_increase (budget s) / 100),
               monthly_expenses := monthly_expenses (budget s) *
                   (1 + expenses_rate_increase (budget s) / 100)\<rparr>\<rparr>
      else s)"

text \<open>
  Lines 184-218, from the state left by the sweep: the charges of the month, the
  overflow, the counter and the yearly change.
\<close>

definition charges :: "state \<Rightarrow> state" where
  "charges s =
     (case accrue s of
        (monthly_savings, interest, s1) \<Rightarrow>
          (case surcharge monthly_savings s1 of
             (monthly_savings', s2) \<Rightarrow>
               annual (advance (overflow monthly_savings' (amortize interest s2)))))"

text \<open>Lines 149-181: what one pass of the loop does before the interest accrues.\<close>

definition before_interest :: "state \<Rightarrow> error + state" where
  "before_interest s =
     (case exit_check s of
        Inl e \<Rightarrow> Inl e
      | Inr s1 \<Rightarrow>
          (case lump_sum s1 of
             Inl e \<Rightarrow> Inl e
           | Inr s2 \<Rightarrow> Inr (sweep s2)))"

text \<open>The body of the loop, lines 147-221.\<close>

definition step :: "state \<Rightarrow> error + state" where
  "step s = (case before_interest s of Inl e \<Rightarrow> Inl e | Inr s1 \<Rightarrow> Inr (charges s1))"

text \<open>
  The loop of line 146. It may run forever (a negative term gives a negative payment
  and a growing principal): \<open>None\<close> is the run that does not return.
\<close>

partial_function (option) while_loop :: "state \<Rightarrow> (error + state) option" where
  "while_loop s =
     (if remaining_principal s > 0
      then (case step s of Inl e \<Rightarrow> Some (Inl e) | Inr s' \<Rightarrow> while_loop s')
      else Some (Inr s))"

text \<open>
  The state after at most \<open>k\<close> passes of the loop: month by month, the trajectory of a
  run. It stops where the loop stops.
\<close>

declare while_loop.simps [code]

fun months :: "nat \<Rightarrow> state \<Rightarrow> error + state" where
  "months 0 s = Inr s"
| "months (Suc k) s =
     (if remaining_principal s > 0
      then (case step s of Inl e \<Rightarrow> Inl e | Inr s' \<Rightarrow> months k s')
      else Inr s)"

text \<open>
  \<^verbatim>\<open>LoanCalc\<close> (lines 102-231): the snapshots of the exits, then the snapshot at payoff.
\<close>

definition LoanCalc ::
  "Loan \<Rightarrow> Budget \<Rightarrow> Loan PrincipalPayment list \<Rightarrow> int list \<Rightarrow> (error + LoanEval list) option" where
  "LoanCalc loan0 budget0 payments0 exits0 =
     (case init loan0 budget0 payments0 exits0 of
        Inl e \<Rightarrow> Some (Inl e)
      | Inr s0 \<Rightarrow>
          (case while_loop s0 of
             None \<Rightarrow> None
           | Some (Inl e) \<Rightarrow> Some (Inl e)
           | Some (Inr s) \<Rightarrow> Some (Inr (loan_evals s @ [snapshot s]))))"

text \<open>
  The values of the locals \<open>monthly_savings\<close> and \<open>interest\<close> when line 198 is reached:
  the month's leftover after the surcharge, and the month's interest.
\<close>

definition monthly_leftover :: "state \<Rightarrow> real" where
  "monthly_leftover s = (case accrue s of (monthly_savings, interest, s1) \<Rightarrow> fst (surcharge monthly_savings s1))"

definition month_interest :: "state \<Rightarrow> real" where
  "month_interest s = fst (snd (accrue s))"


text \<open>The state of a run of \<^verbatim>\<open>LoanCalc\<close> after at most \<open>k\<close> passes of its loop.\<close>

definition run_months ::
  "nat \<Rightarrow> Loan \<Rightarrow> Budget \<Rightarrow> Loan PrincipalPayment list \<Rightarrow> int list \<Rightarrow> error + state" where
  "run_months k loan0 budget0 payments0 exits0 =
     (case init loan0 budget0 payments0 exits0 of
        Inl e \<Rightarrow> Inl e
      | Inr s0 \<Rightarrow> months k s0)"

text \<open>
  The exit cursor when the loop is entered at month \<open>t\<close>: the snapshots taken so far are
  those of the leading exits that lie in \<open>0..<t\<close>, and \<open>current_exit\<close> counts them.
\<close>

definition exits_inv :: "int list \<Rightarrow> int \<Rightarrow> state \<Rightarrow> bool" where
  "exits_inv es t s \<longleftrightarrow>
     exits s = es \<and>
     map length' (loan_evals s) = takeWhile (\<lambda>e. 0 \<le> e \<and> e < t) es \<and>
     current_exit s = length (loan_evals s) \<and>
     last_exit s = (current_exit s = length es)"

text \<open>
  A budget whose overflow policy never adds to the pending savings: a percentage of 0,
  or no percentage and an absolute amount that is absent or 0.
\<close>

definition no_overflow :: "Budget \<Rightarrow> bool" where
  "no_overflow b =
     (case overflow_principal_percent b of
        Some pc \<Rightarrow> pc = 0
      | None \<Rightarrow> (case overflow_principal_abs b of None \<Rightarrow> True | Some a \<Rightarrow> a = 0))"

text \<open>
  Two states of runs without lump sums and without savings that agree on everything the
  principal depends on: they may differ in the fixed period, the variable rate, the
  interest paid and the snapshots.
\<close>

definition same_schedule :: "state \<Rightarrow> state \<Rightarrow> bool" where
  "same_schedule s t \<longleftrightarrow>
     budget s = budget t \<and> exits s = exits t \<and>
     monthly_payment s = monthly_payment t \<and>
     remaining_principal s = remaining_principal t \<and>
     terms_paid s = terms_paid t \<and> monthly_int s = monthly_int t \<and>
     current_exit s = current_exit t \<and> last_exit s = last_exit t \<and>
     next_lump_sum s = None \<and> next_lump_sum t = None \<and>
     budget_savings s = 0 \<and> budget_savings t = 0"
section \<open>Example inputs\<close>

text \<open>
  A two-month loan of 20100 at 12 percent a year (1 percent a month), with a monthly
  payment of 10201: as an adjustable-rate loan whose fixed period is one month and whose
  variable rate is 24 percent, and as a fully fixed loan.
\<close>

definition ex_loan :: Loan where
  "ex_loan = \<lparr>Loan.name = Some ''ARM'', amount = 20100, rate = 12, term' = 2,
     fixed_period = 1, var_rate = Some 24\<rparr>"

definition ex_fixed :: Loan where
  "ex_fixed = \<lparr>Loan.name = Some ''ARM'', amount = 20100, rate = 12, term' = 2,
     fixed_period = 2, var_rate = None\<rparr>"

text \<open>
  A budget that leaves 1000 a month after the payment, grows at the end of the first
  month (\<open>month_offset = 11\<close>) and has no overflow policy.
\<close>

definition ex_budget :: Budget where
  "ex_budget = \<lparr>Budget.name = None, monthly_income = 12701, salary_rate_increase = 10,
     monthly_expenses = 1000, expenses_rate_increase = 5, monthly_prop_tax = 500,
     min_principal_payment = 100, month_offset = 11,
     overflow_principal_percent = None, overflow_principal_abs = None\<rparr>"

text \<open>The state in which \<^verbatim>\<open>LoanCalc\<close> enters its loop on \<open>ex_loan\<close>, for a budget \<open>b\<close>.\<close>

definition ex_state :: "Budget \<Rightarrow> state" where
  "ex_state b =
     \<lparr>loan = ex_loan, budget = b, payments = [], exits = [], monthly_payment = 10201,
      remaining_principal = 20100, terms_paid = 0, monthly_int = 1 / 100,
      monthly_var_int = 2 / 100, fixed_period = 1, next_lump_sum = None,
      budget_savings = 0, current_exit = 0, last_exit = True, interest_paid = 0,
      loan_evals = [], reamor_loan = None\<rparr>"

text \<open>
  A reamortizing payment of 100 at month 1, onto a one-month loan at the same rates whose
  fixed period is one month.
\<close>

definition ex_reamortizing :: "Loan PrincipalPayment" where
  "ex_reamortizing =
     \<lparr>type' = REAMORTIZING, amount = 100, time = 1,
      new_loan_terms = Some \<lparr>Loan.name = None, amount = 0, rate = 12, term' = 1,
        fixed_period = 1, var_rate = Some 24\<rparr>\<rparr>"

section \<open>The engine on a store\<close>

text \<open>
  For what \<^verbatim>\<open>LoanCalc\<close> does to the objects of its caller, the objects live in a store:
  a list of objects in which a reference is an index. A new object is appended, so its
  reference is fresh. The variables \<open>loan\<close>, \<open>budget\<close>, \<open>payments\<close>, \<open>exits\<close>,
  \<open>next_lump_sum\<close> and \<open>reamor_loan\<close> hold references, a \<^verbatim>\<open>PrincipalPayment\<close> object
  holds a reference to its \<^verbatim>\<open>new_loan_terms\<close>, and a list of payments holds references to
  them. The calls considered are those whose arguments are of the classes that the
  signature of \<^verbatim>\<open>LoanCalc\<close> gives; reading through a reference that holds no object of
  the expected class is made a \<^verbatim>\<open>TypeError\<close>, and does not happen in such a call. The
  \<^verbatim>\<open>LoanEval\<close> results are values: they are built by the call and never written again.
  A function that writes the store returns the store with its result, and when it
  raises, the store as it is at the raise with the error: that is the store the caller
  goes on in.
\<close>

type_synonym ref = nat

datatype obj =
    LoanObj Loan
  | BudgetObj Budget
  | PaymentObj "ref PrincipalPayment"
  | PaymentList "ref list"
  | ExitList "int list"

type_synonym store = "obj list"

type_synonym hstate = "(ref, ref, ref, ref, ref) locals"

definition alloc :: "store \<Rightarrow> obj \<Rightarrow> ref \<times> store" where
  "alloc h x = (length h, h @ [x])"

definition put :: "store \<Rightarrow> ref \<Rightarrow> obj \<Rightarrow> store" where
  "put h r x = h[r := x]"

definition get_loan :: "store \<Rightarrow> ref \<Rightarrow> error + Loan" where
  "get_loan h r =
     (if r < length h then (case h ! r of LoanObj l \<Rightarrow> Inr l | _ \<Rightarrow> Inl TypeError)
      else Inl TypeError)"

definition get_budget :: "store \<Rightarrow> ref \<Rightarrow> error + Budget" where
  "get_budget h r =
     (if r < length h then (case h ! r of BudgetObj b \<Rightarrow> Inr b | _ \<Rightarrow> Inl TypeError)
      else Inl TypeError)"

definition get_payment :: "store \<Rightarrow> ref \<Rightarrow> error + ref PrincipalPayment" where
  "get_payment h r =
     (if r < length h then (case h ! r of PaymentObj p \<Rightarrow> Inr p | _ \<Rightarrow> Inl TypeError)
      else Inl TypeError)"

definition get_payments :: "store \<Rightarrow> ref \<Rightarrow> error + ref list" where
  "get_payments h r =
     (if r < length h then (case h ! r of PaymentList ps \<Rightarrow> Inr ps | _ \<Rightarrow> Inl TypeError)
      else Inl TypeError)"

definition get_exits :: "store \<Rightarrow> ref \<Rightarrow> error + int list" where
  "get_exits h r =
     (if r < length h then (case h ! r of ExitList es \<Rightarrow> Inr es | _ \<Rightarrow> Inl TypeError)
      else Inl TypeError)"

text \<open>\<^verbatim>\<open>payments.reverse()\<close> and \<^verbatim>\<open>payments.pop()\<close>: both write the list object.\<close>

definition list_reverse :: "store \<Rightarrow> ref \<Rightarrow> error + store" where
  "list_reverse h r =
     (case get_payments h r of
        Inl e \<Rightarrow> Inl e
      | Inr ps \<Rightarrow> Inr (put h r (PaymentList (rev ps))))"

definition list_pop :: "store \<Rightarrow> ref \<Rightarrow> error + ref \<times> store" where
  "list_pop h r =
     (case get_payments h r of
        Inl e \<Rightarrow> Inl e
      | Inr ps \<Rightarrow>
          if ps = [] then Inl IndexError
          else Inr (last ps, put h r (PaymentList (butlast ps))))"

text \<open>
  Lines 115-142. \<^verbatim>\<open>dataclasses.replace\<close> and the slices allocate the copies, and the
  variables are bound to them; the reversal and the first pop write the copy of the
  list.
\<close>

definition init_h ::
  "store \<Rightarrow> ref \<Rightarrow> ref \<Rightarrow> ref \<Rightarrow> ref \<Rightarrow> error \<times> store + store \<times> hstate" where
  "init_h h loan0 budget0 payments0 exits0 =
     (case get_loan h loan0 of Inl e \<Rightarrow> Inl (e, h) | Inr l \<Rightarrow>
      (case alloc h (LoanObj l) of (loan1, h1) \<Rightarrow>
      (case get_budget h1 budget0 of Inl e \<Rightarrow> Inl (e, h1) | Inr b \<Rightarrow>
      (case alloc h1 (BudgetObj b) of (budget1, h2) \<Rightarrow>
      (case get_payments h2 payments0 of Inl e \<Rightarrow> Inl (e, h2) | Inr ps \<Rightarrow>
      (case alloc h2 (PaymentList ps) of (payments1, h3) \<Rightarrow>
      (case get_exits h3 exits0 of Inl e \<Rightarrow> Inl (e, h3) | Inr es \<Rightarrow>
      (case alloc h3 (ExitList es) of (exits1, h4) \<Rightarrow>
      (case get_loan h4 loan1 of Inl e \<Rightarrow> Inl (e, h4) | Inr l1 \<Rightarrow>
      (case GetMonthlyPayment l1 of Inl e \<Rightarrow> Inl (e, h4) | Inr mp \<Rightarrow>
      (case get_payments h4 payments1 of Inl e \<Rightarrow> Inl (e, h4) | Inr ps1 \<Rightarrow>
      (case (if ps1 \<noteq> []
             then (case list_reverse h4 payments1 of
                     Inl e \<Rightarrow> Inl (e, h4)
                   | Inr h5 \<Rightarrow>
                       (case list_pop h5 payments1 of
                          Inl e \<Rightarrow> Inl (e, h5)
                        | Inr (p, h6) \<Rightarrow> Inr (Some p, h6)))
             else Inr (None, h4)) of
         Inl x \<Rightarrow> Inl x
       | Inr (next, h7) \<Rightarrow>
      (case get_exits h7 exits1 of Inl e \<Rightarrow> Inl (e, h7) | Inr es1 \<Rightarrow>
         Inr (h7,
           \<lparr>loan = loan1, budget = budget1, payments = payments1, exits = exits1,
            monthly_payment = mp,
            remaining_principal = Loan.amount l1,
            terms_paid = 0,
            monthly_int = Loan.rate l1 / (12 * 100),
            monthly_var_int = var_int_of (var_rate l1),
            fixed_period = Loan.fixed_period l1,
            next_lump_sum = next,
            budget_savings = 0,
            current_exit = 0,
            last_exit = (es1 = []),
            interest_paid = 0,
            loan_evals = [],
            reamor_loan = None\<rparr>))))))))))))))"

text \<open>Lines 153-159 and 224-230: the snapshot reads the fields of the loan copy.\<close>

definition snapshot_h :: "store \<Rightarrow> hstate \<Rightarrow> error + LoanEval" where
  "snapshot_h h v =
     (case get_loan h (loan v) of
        Inl e \<Rightarrow> Inl e
      | Inr l \<Rightarrow>
          Inr \<lparr>loan_name = Loan.name l,
               principal_remaining = remaining_principal v,
               principal_paid = Loan.amount l - remaining_principal v,
               interest_paid = locals.interest_paid v,
               length' = terms_paid v,
               monthly_payments = monthly_payment v\<rparr>)"

text \<open>Lines 149-159.\<close>

definition exit_check_h :: "store \<Rightarrow> hstate \<Rightarrow> error + hstate" where
  "exit_check_h h v =
     (if last_exit v then Inr v
      else
        (case get_exits h (exits v) of
           Inl e \<Rightarrow> Inl e
         | Inr es \<Rightarrow>
             if \<not> current_exit v < length es then Inl IndexError
             else if terms_paid v = es ! current_exit v
             then (case snapshot_h h v of
                     Inl e \<Rightarrow> Inl e
                   | Inr sn \<Rightarrow>
                       Inr (v\<lparr>current_exit := current_exit v + 1,
                              last_exit := (current_exit v + 1 = length es),
                              loan_evals := loan_evals v @ [sn]\<rparr>))
             else Inr v))"

text \<open>
  Lines 165-172. \<^verbatim>\<open>dataclasses.replace\<close> allocates the copy \<open>reamor_loan\<close> of the new
  terms; the two assignments to its fields write that copy.
\<close>

definition reamortize_h ::
  "store \<Rightarrow> ref PrincipalPayment \<Rightarrow> hstate \<Rightarrow> error \<times> store + store \<times> hstate" where
  "reamortize_h h p v =
     (case new_loan_terms p of
        None \<Rightarrow> Inl (TypeError, h)
      | Some terms \<Rightarrow>
          (case get_loan h terms of Inl e \<Rightarrow> Inl (e, h) | Inr l \<Rightarrow>
           (case alloc h (LoanObj l) of (reamor, h1) \<Rightarrow>
           (case get_loan h1 reamor of Inl e \<Rightarrow> Inl (e, h1) | Inr l1 \<Rightarrow>
           (let h2 = put h1 reamor (LoanObj (l1\<lparr>Loan.amount := remaining_principal v\<rparr>)) in
           (case get_loan h2 reamor of Inl e \<Rightarrow> Inl (e, h2) | Inr l2 \<Rightarrow>
           (case GetMonthlyPayment l2 of Inl e \<Rightarrow> Inl (e, h2) | Inr mp \<Rightarrow>
           (let h3 = put h2 reamor
                  (LoanObj (l2\<lparr>Loan.fixed_period := Loan.fixed_period l2 + terms_paid v\<rparr>)) in
           (case get_loan h3 reamor of Inl e \<Rightarrow> Inl (e, h3) | Inr l3 \<Rightarrow>
              Inr (h3, v\<lparr>monthly_payment := mp,
                         monthly_int := Loan.rate l3 / (12 * 100),
                         monthly_var_int := var_int_of (var_rate l3),
                         reamor_loan := Some reamor\<rparr>))))))))))"

text \<open>Lines 162-177. The payment object is read; the pop writes the copy of the list.\<close>

definition lump_sum_h :: "store \<Rightarrow> hstate \<Rightarrow> error \<times> store + store \<times> hstate" where
  "lump_sum_h h v =
     (case next_lump_sum v of
        None \<Rightarrow> Inr (h, v)
      | Some r \<Rightarrow>
          (case get_payment h r of
             Inl e \<Rightarrow> Inl (e, h)
           | Inr p \<Rightarrow>
               if time p = terms_paid v then
                 (let v1 = v\<lparr>remaining_principal :=
                               remaining_principal v - PrincipalPayment.amount p\<rparr> in
                  case (if type' p = REAMORTIZING then reamortize_h h p v1 else Inr (h, v1)) of
                    Inl x \<Rightarrow> Inl x
                  | Inr (h2, v2) \<Rightarrow>
                      (case get_payments h2 (payments v2) of
                         Inl e \<Rightarrow> Inl (e, h2)
                       | Inr ps \<Rightarrow>
                           if ps \<noteq> []
                           then (case list_pop h2 (payments v2) of
                                   Inl e \<Rightarrow> Inl (e, h2)
                                 | Inr (nxt, h3) \<Rightarrow> Inr (h3, v2\<lparr>next_lump_sum := Some nxt\<rparr>))
                           else Inr (h2, v2\<lparr>next_lump_sum := None\<rparr>)))
               else Inr (h, v)))"

text \<open>Lines 179-188 and 201-204 read the budget copy.\<close>

definition sweep_h :: "store \<Rightarrow> hstate \<Rightarrow> error + hstate" where
  "sweep_h h v =
     (case get_budget h (budget v) of
        Inl e \<Rightarrow> Inl e
      | Inr b \<Rightarrow>
          Inr (if budget_savings v > min_principal_payment b
               then v\<lparr>remaining_principal := remaining_principal v - budget_savings v,
                       budget_savings := 0\<rparr>
               else v))"

definition accrue_h :: "store \<Rightarrow> hstate \<Rightarrow> error + real \<times> real \<times> hstate" where
  "accrue_h h v =
     (case get_budget h (budget v) of
        Inl e \<Rightarrow> Inl e
      | Inr b \<Rightarrow>
          (let monthly_savings = monthly_income b -
                 (monthly_expenses b + monthly_payment v + monthly_prop_tax b);
               interest = monthly_int v * remaining_principal v
           in Inr (monthly_savings, interest,
                   v\<lparr>interest_paid := locals.interest_paid v + interest\<rparr>)))"

definition overflow_h :: "store \<Rightarrow> real \<Rightarrow> hstate \<Rightarrow> error + hstate" where
  "overflow_h h monthly_savings v =
     (case get_budget h (budget v) of
        Inl e \<Rightarrow> Inl e
      | Inr b \<Rightarrow>
          Inr (case overflow_principal_percent b of
                 Some pc \<Rightarrow>
                   v\<lparr>budget_savings := budget_savings v + monthly_savings * (pc / 100)\<rparr>
               | None \<Rightarrow>
                   (case overflow_principal_abs b of
                      None \<Rightarrow> v
                    | Some a \<Rightarrow>
                        if a = 0 then v
                        else v\<lparr>budget_savings := budget_savings v + min monthly_savings a\<rparr>)))"

text \<open>Lines 216-218: the two assignments write the budget copy.\<close>

definition annual_h :: "store \<Rightarrow> hstate \<Rightarrow> error \<times> store + store \<times> hstate" where
  "annual_h h v =
     (case get_budget h (budget v) of
        Inl e \<Rightarrow> Inl (e, h)
      | Inr b \<Rightarrow>
          if (terms_paid v + month_offset b) mod 12 = 0 then
            (let h1 = put h (budget v)
                   (BudgetObj (b\<lparr>monthly_income := monthly_income b *
                      (1 + salary_rate_increase b / 100)\<rparr>)) in
             case get_budget h1 (budget v) of
               Inl e \<Rightarrow> Inl (e, h1)
             | Inr b1 \<Rightarrow>
                 Inr (put h1 (budget v)
                        (BudgetObj (b1\<lparr>monthly_expenses := monthly_expenses b1 *
                           (1 + expenses_rate_increase b1 / 100)\<rparr>)), v))
          else Inr (h, v))"

definition charges_h :: "store \<Rightarrow> hstate \<Rightarrow> error \<times> store + store \<times> hstate" where
  "charges_h h v =
     (case accrue_h h v of
        Inl e \<Rightarrow> Inl (e, h)
      | Inr (monthly_savings, interest, v1) \<Rightarrow>
          (case surcharge monthly_savings v1 of
             (monthly_savings', v2) \<Rightarrow>
               (case overflow_h h monthly_savings' (amortize interest v2) of
                  Inl e \<Rightarrow> Inl (e, h)
                | Inr v3 \<Rightarrow> annual_h h (advance v3))))"

text \<open>The body of the loop, lines 147-221, and the loop.\<close>

definition step_h :: "store \<times> hstate \<Rightarrow> error \<times> store + store \<times> hstate" where
  "step_h hv =
     (case exit_check_h (fst hv) (snd hv) of
        Inl e \<Rightarrow> Inl (e, fst hv)
      | Inr v1 \<Rightarrow>
          (case lump_sum_h (fst hv) v1 of
             Inl x \<Rightarrow> Inl x
           | Inr (h2, v2) \<Rightarrow>
               (case sweep_h h2 v2 of
                  Inl e \<Rightarrow> Inl (e, h2)
                | Inr v3 \<Rightarrow> charges_h h2 v3)))"

partial_function (option) while_loop_h ::
  "store \<times> hstate \<Rightarrow> (error \<times> store + store \<times> hstate) option" where
  "while_loop_h hv =
     (if remaining_principal (snd hv) > 0
      then (case step_h hv of Inl x \<Rightarrow> Some (Inl x) | Inr hv' \<Rightarrow> while_loop_h hv')
      else Some (Inr hv))"

declare while_loop_h.simps [code]

text \<open>
  \<^verbatim>\<open>LoanCalc\<close> on the store \<open>h\<close>, called with references to a loan, a budget, a list of
  payments and a list of exits: the snapshots or the error raised, and the store it
  leaves.
\<close>

definition LoanCalc_h ::
  "store \<Rightarrow> ref \<Rightarrow> ref \<Rightarrow> ref \<Rightarrow> ref \<Rightarrow>
   (error \<times> store + LoanEval list \<times> store) option" where
  "LoanCalc_h h loan0 budget0 payments0 exits0 =
     (case init_h h loan0 budget0 payments0 exits0 of
        Inl x \<Rightarrow> Some (Inl x)
      | Inr hv0 \<Rightarrow>
          (case while_loop_h hv0 of
             None \<Rightarrow> None
           | Some (Inl x) \<Rightarrow> Some (Inl x)
           | Some (Inr (h1, v)) \<Rightarrow>
               (case snapshot_h h1 v of
                  Inl e \<Rightarrow> Some (Inl (e, h1))
                | Inr sn \<Rightarrow> Some (Inr (loan_evals v @ [sn], h1)))))"

text \<open>
  The value of the payment that a reference denotes in a store, with the value of its
  new loan terms.
\<close>

definition deref_payment :: "store \<Rightarrow> ref \<Rightarrow> error + Loan PrincipalPayment" where
  "deref_payment h r =
     (case get_payment h r of
        Inl e \<Rightarrow> Inl e
      | Inr p \<Rightarrow>
          (case new_loan_terms p of
             None \<Rightarrow>
               Inr \<lparr>type' = type' p, amount = PrincipalPayment.amount p, time = time p,
                    new_loan_terms = None\<rparr>
           | Some lr \<Rightarrow>
               (case get_loan h lr of
                  Inl e \<Rightarrow> Inl e
                | Inr l \<Rightarrow>
                    Inr \<lparr>type' = type' p, amount = PrincipalPayment.amount p, time = time p,
                         new_loan_terms = Some l\<rparr>)))"

text \<open>
  A store in which the loan that \<open>ex_loan\<close> describes is used twice, as is allowed: as the
  loan of the call and as the new terms of a reamortizing payment.
\<close>

definition ex_store :: store where
  "ex_store =
     [LoanObj ex_loan,
      BudgetObj ex_budget,
      PaymentObj \<lparr>type' = REAMORTIZING, amount = 100, time = 1, new_loan_terms = Some 0\<rparr>,
      PaymentList [2],
      ExitList [1]]"

text \<open>
  A store in which the new terms of the reamortizing payment of month 1 are a loan of
  rate 0, for which \<^verbatim>\<open>GetMonthlyPayment\<close> divides by zero.
\<close>

definition ex_store_zero :: store where
  "ex_store_zero =
     [LoanObj ex_loan,
      BudgetObj ex_budget,
      PaymentObj \<lparr>type' = REAMORTIZING, amount = 100, time = 1, new_loan_terms = Some 5\<rparr>,
      PaymentList [2],
      ExitList [1],
      LoanObj (ex_loan\<lparr>rate := 0\<rparr>)]"

text \<open>
  The relation between a state of the engine on the store and a state of the engine on
  values, for a call entered with the store \<open>h0\<close>: the store still begins with \<open>h0\<close>,
  unchanged; the copies of the loan, the budget and the exits hold the values; the copy
  of the budget and of the list of payments were allocated by the call; the payments
  still to come are references into \<open>h0\<close> that denote the values; the numbers agree.
\<close>

definition same_numbers ::
  "('l, 'b, 'ps, 'es, 'p) locals \<Rightarrow> ('k, 'c, 'qs, 'fs, 'q) locals \<Rightarrow> bool" where
  "same_numbers v s \<longleftrightarrow>
     monthly_payment v = monthly_payment s \<and>
     remaining_principal v = remaining_principal s \<and>
     terms_paid v = terms_paid s \<and>
     monthly_int v = monthly_int s \<and>
     monthly_var_int v = monthly_var_int s \<and>
     locals.fixed_period v = locals.fixed_period s \<and>
     budget_savings v = budget_savings s \<and>
     current_exit v = current_exit s \<and>
     last_exit v = last_exit s \<and>
     locals.interest_paid v = locals.interest_paid s \<and>
     loan_evals v = loan_evals s"

definition denotes :: "store \<Rightarrow> ref \<Rightarrow> Loan PrincipalPayment \<Rightarrow> bool" where
  "denotes h0 r p \<longleftrightarrow> deref_payment h0 r = Inr p"

definition sim :: "store \<Rightarrow> store \<times> hstate \<Rightarrow> state \<Rightarrow> bool" where
  "sim h0 hv s \<longleftrightarrow>
     length h0 \<le> length (fst hv) \<and> take (length h0) (fst hv) = h0 \<and>
     get_loan (fst hv) (loan (snd hv)) = Inr (loan s) \<and>
     get_budget (fst hv) (budget (snd hv)) = Inr (budget s) \<and>
     length h0 \<le> budget (snd hv) \<and>
     (\<exists>prs. get_payments (fst hv) (payments (snd hv)) = Inr prs \<and>
        list_all2 (denotes h0) prs (payments s)) \<and>
     length h0 \<le> payments (snd hv) \<and>
     get_exits (fst hv) (exits (snd hv)) = Inr (exits s) \<and>
     rel_option (denotes h0) (next_lump_sum (snd hv)) (next_lump_sum s) \<and>
     same_numbers (snd hv) s"

text \<open>
  An error raised on the store corresponds to an error of the engine on values when it is
  the same error and the store at the raise still begins with \<open>h0\<close>.
\<close>

definition same_error :: "store \<Rightarrow> error \<times> store \<Rightarrow> error \<Rightarrow> bool" where
  "same_error h0 x e \<longleftrightarrow>
     fst x = e \<and> length h0 \<le> length (snd x) \<and> take (length h0) (snd x) = h0"

section \<open>The payment calculator on the reals\<close>

lemma float_overflow_small: "\<bar>v\<bar> < 2 \<Longrightarrow> \<not> float_overflow v"
proof -
  have "(2::real) \<le> 2 ^ 1024 - 2 ^ 970" by simp
  then show "\<bar>v\<bar> < 2 \<Longrightarrow> \<not> float_overflow v"
    by (simp add: float_overflow_def)
qed

lemma GetMonthlyPayment_unfold:
  "GetMonthlyPayment l =
     (let monthly_int = Loan.rate l / (12 * 100) in
      case math_pow (1 + monthly_int) (term' l) of
        Inl e \<Rightarrow> Inl e
      | Inr p1 \<Rightarrow>
          (case math_pow (1 + monthly_int) (term' l) of
             Inl e \<Rightarrow> Inl e
           | Inr p2 \<Rightarrow>
               if p2 - 1 = 0 then Inl ZeroDivisionError
               else Inr (Loan.amount l * (monthly_int * p1 / (p2 - 1)))))"
  by (simp add: GetMonthlyPayment_def GetMonthlyPayment_on_def real_arith_def py_div_def
        Let_def split: sum.splits)

section \<open>What each part of the loop body changes\<close>

lemma monthly_leftover_eq:
  "monthly_leftover s =
     monthly_income (budget s) -
       (monthly_expenses (budget s) + monthly_payment s + monthly_prop_tax (budget s)) -
     (if locals.fixed_period s \<le> terms_paid s
      then (monthly_var_int s - monthly_int s) * remaining_principal s else 0)"
  by (simp add: monthly_leftover_def accrue_def surcharge_def Let_def)

lemma month_interest_eq: "month_interest s = monthly_int s * remaining_principal s"
  by (simp add: month_interest_def accrue_def Let_def)

lemma sweep_frame [simp]:
  "loan (sweep s) = loan s"
  "budget (sweep s) = budget s"
  "payments (sweep s) = payments s"
  "exits (sweep s) = exits s"
  "monthly_payment (sweep s) = monthly_payment s"
  "terms_paid (sweep s) = terms_paid s"
  "monthly_int (sweep s) = monthly_int s"
  "monthly_var_int (sweep s) = monthly_var_int s"
  "locals.fixed_period (sweep s) = locals.fixed_period s"
  "next_lump_sum (sweep s) = next_lump_sum s"
  "current_exit (sweep s) = current_exit s"
  "last_exit (sweep s) = last_exit s"
  "locals.interest_paid (sweep s) = locals.interest_paid s"
  "loan_evals (sweep s) = loan_evals s"
  "reamor_loan (sweep s) = reamor_loan s"
  by (simp_all add: sweep_def)

lemma accrue_frame [simp]:
  "loan (snd (snd (accrue s))) = loan s"
  "budget (snd (snd (accrue s))) = budget s"
  "payments (snd (snd (accrue s))) = payments s"
  "exits (snd (snd (accrue s))) = exits s"
  "monthly_payment (snd (snd (accrue s))) = monthly_payment s"
  "remaining_principal (snd (snd (accrue s))) = remaining_principal s"
  "terms_paid (snd (snd (accrue s))) = terms_paid s"
  "monthly_int (snd (snd (accrue s))) = monthly_int s"
  "monthly_var_int (snd (snd (accrue s))) = monthly_var_int s"
  "locals.fixed_period (snd (snd (accrue s))) = locals.fixed_period s"
  "next_lump_sum (snd (snd (accrue s))) = next_lump_sum s"
  "budget_savings (snd (snd (accrue s))) = budget_savings s"
  "current_exit (snd (snd (accrue s))) = current_exit s"
  "last_exit (snd (snd (accrue s))) = last_exit s"
  "loan_evals (snd (snd (accrue s))) = loan_evals s"
  "reamor_loan (snd (snd (accrue s))) = reamor_loan s"
  by (simp_all add: accrue_def Let_def)

lemma surcharge_frame [simp]:
  "loan (snd (surcharge ms s)) = loan s"
  "budget (snd (surcharge ms s)) = budget s"
  "payments (snd (surcharge ms s)) = payments s"
  "exits (snd (surcharge ms s)) = exits s"
  "monthly_payment (snd (surcharge ms s)) = monthly_payment s"
  "remaining_principal (snd (surcharge ms s)) = remaining_principal s"
  "terms_paid (snd (surcharge ms s)) = terms_paid s"
  "monthly_int (snd (surcharge ms s)) = monthly_int s"
  "monthly_var_int (snd (surcharge ms s)) = monthly_var_int s"
  "locals.fixed_period (snd (surcharge ms s)) = locals.fixed_period s"
  "next_lump_sum (snd (surcharge ms s)) = next_lump_sum s"
  "budget_savings (snd (surcharge ms s)) = budget_savings s"
  "current_exit (snd (surcharge ms s)) = current_exit s"
  "last_exit (snd (surcharge ms s)) = last_exit s"
  "loan_evals (snd (surcharge ms s)) = loan_evals s"
  "reamor_loan (snd (surcharge ms s)) = reamor_loan s"
  by (simp_all add: surcharge_def Let_def)

lemma amortize_frame [simp]:
  "loan (amortize i s) = loan s"
  "budget (amortize i s) = budget s"
  "payments (amortize i s) = payments s"
  "exits (amortize i s) = exits s"
  "monthly_payment (amortize i s) = monthly_payment s"
  "terms_paid (amortize i s) = terms_paid s"
  "monthly_int (amortize i s) = monthly_int s"
  "monthly_var_int (amortize i s) = monthly_var_int s"
  "locals.fixed_period (amortize i s) = locals.fixed_period s"
  "next_lump_sum (amortize i s) = next_lump_sum s"
  "budget_savings (amortize i s) = budget_savings s"
  "current_exit (amortize i s) = current_exit s"
  "last_exit (amortize i s) = last_exit s"
  "locals.interest_paid (amortize i s) = locals.interest_paid s"
  "loan_evals (amortize i s) = loan_evals s"
  "reamor_loan (amortize i s) = reamor_loan s"
  by (simp_all add: amortize_def)

lemma overflow_frame [simp]:
  "loan (overflow ms s) = loan s"
  "budget (overflow ms s) = budget s"
  "payments (overflow ms s) = payments s"
  "exits (overflow ms s) = exits s"
  "monthly_payment (overflow ms s) = monthly_payment s"
  "remaining_principal (overflow ms s) = remaining_principal s"
  "terms_paid (overflow ms s) = terms_paid s"
  "monthly_int (overflow ms s) = monthly_int s"
  "monthly_var_int (overflow ms s) = monthly_var_int s"
  "locals.fixed_period (overflow ms s) = locals.fixed_period s"
  "next_lump_sum (overflow ms s) = next_lump_sum s"
  "current_exit (overflow ms s) = current_exit s"
  "last_exit (overflow ms s) = last_exit s"
  "locals.interest_paid (overflow ms s) = locals.interest_paid s"
  "loan_evals (overflow ms s) = loan_evals s"
  "reamor_loan (overflow ms s) = reamor_loan s"
  by (simp_all add: overflow_def split: option.splits)

lemma advance_frame [simp]:
  "loan (advance s) = loan s"
  "budget (advance s) = budget s"
  "payments (advance s) = payments s"
  "exits (advance s) = exits s"
  "monthly_payment (advance s) = monthly_payment s"
  "remaining_principal (advance s) = remaining_principal s"
  "monthly_int (advance s) = monthly_int s"
  "monthly_var_int (advance s) = monthly_var_int s"
  "locals.fixed_period (advance s) = locals.fixed_period s"
  "next_lump_sum (advance s) = next_lump_sum s"
  "budget_savings (advance s) = budget_savings s"
  "current_exit (advance s) = current_exit s"
  "last_exit (advance s) = last_exit s"
  "locals.interest_paid (advance s) = locals.interest_paid s"
  "loan_evals (advance s) = loan_evals s"
  "reamor_loan (advance s) = reamor_loan s"
  by (simp_all add: advance_def)

lemma annual_frame [simp]:
  "loan (annual s) = loan s"
  "payments (annual s) = payments s"
  "exits (annual s) = exits s"
  "monthly_payment (annual s) = monthly_payment s"
  "remaining_principal (annual s) = remaining_principal s"
  "terms_paid (annual s) = terms_paid s"
  "monthly_int (annual s) = monthly_int s"
  "monthly_var_int (annual s) = monthly_var_int s"
  "locals.fixed_period (annual s) = locals.fixed_period s"
  "next_lump_sum (annual s) = next_lump_sum s"
  "budget_savings (annual s) = budget_savings s"
  "current_exit (annual s) = current_exit s"
  "last_exit (annual s) = last_exit s"
  "locals.interest_paid (annual s) = locals.interest_paid s"
  "loan_evals (annual s) = loan_evals s"
  "reamor_loan (annual s) = reamor_loan s"
  by (simp_all add: annual_def)

lemma accrue_values [simp]:
  "fst (accrue s) = monthly_income (budget s) -
     (monthly_expenses (budget s) + monthly_payment s + monthly_prop_tax (budget s))"
  "fst (snd (accrue s)) = monthly_int s * remaining_principal s"
  "locals.interest_paid (snd (snd (accrue s))) =
     locals.interest_paid s + monthly_int s * remaining_principal s"
  by (simp_all add: accrue_def Let_def)

lemma surcharge_values [simp]:
  "fst (surcharge ms s) =
     (if locals.fixed_period s \<le> terms_paid s
      then ms - (monthly_var_int s - monthly_int s) * remaining_principal s else ms)"
  "locals.interest_paid (snd (surcharge ms s)) =
     (if locals.fixed_period s \<le> terms_paid s
      then locals.interest_paid s + (monthly_var_int s - monthly_int s) * remaining_principal s
      else locals.interest_paid s)"
  by (simp_all add: surcharge_def Let_def)

lemma amortize_value [simp]:
  "remaining_principal (amortize i s) = remaining_principal s - (monthly_payment s - i)"
  by (simp add: amortize_def)

lemma overflow_value:
  "budget_savings (overflow ms s) =
     (case overflow_principal_percent (budget s) of
        Some pc \<Rightarrow> budget_savings s + ms * (pc / 100)
      | None \<Rightarrow>
          (case overflow_principal_abs (budget s) of
             None \<Rightarrow> budget_savings s
           | Some a \<Rightarrow> if a = 0 then budget_savings s else budget_savings s + min ms a))"
  by (simp add: overflow_def split: option.splits)

lemma advance_value [simp]: "terms_paid (advance s) = terms_paid s + 1"
  by (simp add: advance_def)

lemma annual_value:
  "budget (annual s) =
     (if (terms_paid s + month_offset (budget s)) mod 12 = 0
      then (budget s)
        \<lparr>monthly_income := monthly_income (budget s) *
             (1 + salary_rate_increase (budget s) / 100),
         monthly_expenses := monthly_expenses (budget s) *
             (1 + expenses_rate_increase (budget s) / 100)\<rparr>
      else budget s)"
  by (simp add: annual_def)

lemma sweep_values:
  "remaining_principal (sweep s) =
     (if min_principal_payment (budget s) < budget_savings s
      then remaining_principal s - budget_savings s else remaining_principal s)"
  "budget_savings (sweep s) =
     (if min_principal_payment (budget s) < budget_savings s then 0 else budget_savings s)"
  by (simp_all add: sweep_def)

lemma charges_unfold:
  "charges s =
     annual (advance (overflow (monthly_leftover s) (amortize (month_interest s)
       (snd (surcharge (fst (accrue s)) (snd (snd (accrue s))))))))"
  by (simp only: charges_def monthly_leftover_def month_interest_def case_prod_beta)

lemma charges_frame [simp]:
  "loan (charges s) = loan s"
  "payments (charges s) = payments s"
  "exits (charges s) = exits s"
  "monthly_payment (charges s) = monthly_payment s"
  "monthly_int (charges s) = monthly_int s"
  "monthly_var_int (charges s) = monthly_var_int s"
  "locals.fixed_period (charges s) = locals.fixed_period s"
  "next_lump_sum (charges s) = next_lump_sum s"
  "current_exit (charges s) = current_exit s"
  "last_exit (charges s) = last_exit s"
  "loan_evals (charges s) = loan_evals s"
  "reamor_loan (charges s) = reamor_loan s"
  by (simp_all add: charges_unfold)

lemma charges_values:
  "terms_paid (charges s) = terms_paid s + 1"
  "remaining_principal (charges s) =
     remaining_principal s - (monthly_payment s - monthly_int s * remaining_principal s)"
  "locals.interest_paid (charges s) =
     (if locals.fixed_period s \<le> terms_paid s
      then locals.interest_paid s + monthly_int s * remaining_principal s +
           (monthly_var_int s - monthly_int s) * remaining_principal s
      else locals.interest_paid s + monthly_int s * remaining_principal s)"
  "budget_savings (charges s) =
     (case overflow_principal_percent (budget s) of
        Some pc \<Rightarrow> budget_savings s + monthly_leftover s * (pc / 100)
      | None \<Rightarrow>
          (case overflow_principal_abs (budget s) of
             None \<Rightarrow> budget_savings s
           | Some a \<Rightarrow> if a = 0 then budget_savings s
                       else budget_savings s + min (monthly_leftover s) a))"
  "budget (charges s) =
     (if (terms_paid s + 1 + month_offset (budget s)) mod 12 = 0
      then (budget s)
        \<lparr>monthly_income := monthly_income (budget s) *
             (1 + salary_rate_increase (budget s) / 100),
         monthly_expenses := monthly_expenses (budget s) *
             (1 + expenses_rate_increase (budget s) / 100)\<rparr>
      else budget s)"
  by (simp_all add: charges_unfold month_interest_def overflow_value annual_value
        split: option.splits)

lemma exit_check_frame:
  assumes "exit_check s = Inr s'"
  shows
    "loan s' = loan s"
    "budget s' = budget s"
    "payments s' = payments s"
    "exits s' = exits s"
    "monthly_payment s' = monthly_payment s"
    "remaining_principal s' = remaining_principal s"
    "terms_paid s' = terms_paid s"
    "monthly_int s' = monthly_int s"
    "monthly_var_int s' = monthly_var_int s"
    "locals.fixed_period s' = locals.fixed_period s"
    "next_lump_sum s' = next_lump_sum s"
    "budget_savings s' = budget_savings s"
    "locals.interest_paid s' = locals.interest_paid s"
    "reamor_loan s' = reamor_loan s"
  using assms by (auto simp: exit_check_def split: if_splits)

lemma reamortize_frame:
  assumes "reamortize p s = Inr s'"
  shows
    "loan s' = loan s"
    "budget s' = budget s"
    "payments s' = payments s"
    "exits s' = exits s"
    "remaining_principal s' = remaining_principal s"
    "terms_paid s' = terms_paid s"
    "locals.fixed_period s' = locals.fixed_period s"
    "next_lump_sum s' = next_lump_sum s"
    "budget_savings s' = budget_savings s"
    "current_exit s' = current_exit s"
    "last_exit s' = last_exit s"
    "locals.interest_paid s' = locals.interest_paid s"
    "loan_evals s' = loan_evals s"
  using assms by (auto simp: reamortize_def Let_def split: option.splits sum.splits)

lemma lump_sum_cases:
  assumes "lump_sum s = Inr s'"
  obtains (skip) "s' = s"
  | (pay) p s2 where "next_lump_sum s = Some p" "time p = terms_paid s"
      "(if type' p = REAMORTIZING
        then reamortize p (s\<lparr>remaining_principal := remaining_principal s - PrincipalPayment.amount p\<rparr>)
        else Inr (s\<lparr>remaining_principal := remaining_principal s - PrincipalPayment.amount p\<rparr>)) = Inr s2"
      "s' = (if payments s2 \<noteq> []
             then s2\<lparr>next_lump_sum := Some (last (payments s2)), payments := butlast (payments s2)\<rparr>
             else s2\<lparr>next_lump_sum := None\<rparr>)"
  using assms by (auto simp: lump_sum_def Let_def split: option.splits sum.splits if_splits)

lemma lump_sum_frame:
  assumes "lump_sum s = Inr s'"
  shows "loan s' = loan s" "budget s' = budget s" "exits s' = exits s"
    "terms_paid s' = terms_paid s" "locals.fixed_period s' = locals.fixed_period s"
    "budget_savings s' = budget_savings s" "current_exit s' = current_exit s"
    "last_exit s' = last_exit s" "locals.interest_paid s' = locals.interest_paid s"
    "loan_evals s' = loan_evals s"
  using assms
  by (cases rule: lump_sum_cases;
      auto split: if_splits dest: reamortize_frame)+

section \<open>The loop body and the loop\<close>

lemma step_cases:
  assumes "step s = Inr s'"
  obtains s1 s2 where "exit_check s = Inr s1" "lump_sum s1 = Inr s2" "s' = charges (sweep s2)"
  using assms by (auto simp: step_def before_interest_def split: sum.splits)

lemma step_frame:
  assumes "step s = Inr s'"
  shows "loan s' = loan s" "exits s' = exits s" "locals.fixed_period s' = locals.fixed_period s"
    "terms_paid s' = terms_paid s + 1"
proof -
  from assms obtain s1 s2 where a: "exit_check s = Inr s1" and b: "lump_sum s1 = Inr s2"
    and c: "s' = charges (sweep s2)"
    by (rule step_cases)
  show "loan s' = loan s"
    by (simp add: c lump_sum_frame(1) [OF b] exit_check_frame(1) [OF a])
  show "exits s' = exits s"
    by (simp add: c lump_sum_frame(3) [OF b] exit_check_frame(4) [OF a])
  show "locals.fixed_period s' = locals.fixed_period s"
    by (simp add: c lump_sum_frame(5) [OF b] exit_check_frame(10) [OF a])
  show "terms_paid s' = terms_paid s + 1"
    by (simp add: c charges_values(1) lump_sum_frame(4) [OF b] exit_check_frame(7) [OF a])
qed

lemma step_budget:
  assumes "step s = Inr s'"
  shows "budget s' =
     (if (terms_paid s + 1 + month_offset (budget s)) mod 12 = 0
      then (budget s)
        \<lparr>monthly_income := monthly_income (budget s) *
             (1 + salary_rate_increase (budget s) / 100),
         monthly_expenses := monthly_expenses (budget s) *
             (1 + expenses_rate_increase (budget s) / 100)\<rparr>
      else budget s)"
proof -
  from assms obtain s1 s2 where a: "exit_check s = Inr s1" and b: "lump_sum s1 = Inr s2"
    and c: "s' = charges (sweep s2)"
    by (rule step_cases)
  have "budget s2 = budget s" "terms_paid s2 = terms_paid s"
    by (simp_all add: lump_sum_frame(2,4) [OF b] exit_check_frame(2,7) [OF a])
  then show ?thesis by (simp add: c charges_values(5))
qed

text \<open>A property kept by the loop body holds after any number of months.\<close>

lemma months_invariant:
  assumes "\<And>s s'. I s \<Longrightarrow> remaining_principal s > 0 \<Longrightarrow> step s = Inr s' \<Longrightarrow> I s'"
  shows "I s \<Longrightarrow> months k s = Inr s' \<Longrightarrow> I s'"
proof (induction k arbitrary: s)
  case 0
  then show ?case by simp
next
  case (Suc k)
  show ?case
  proof (cases "remaining_principal s > 0")
    case True
    with Suc.prems obtain s1 where s1: "step s = Inr s1" "months k s1 = Inr s'"
      by (auto split: sum.splits)
    from assms [OF Suc.prems(1) True s1(1)] have "I s1" .
    from Suc.IH [OF this s1(2)] show ?thesis .
  next
    case False
    with Suc.prems show ?thesis by simp
  qed
qed

text \<open>A run that returns is a trajectory that has reached a principal not above zero.\<close>

lemma while_loop_months:
  "while_loop s = Some r \<Longrightarrow>
     \<exists>k. months k s = r \<and>
       (case r of Inl e \<Rightarrow> True | Inr s' \<Rightarrow> \<not> remaining_principal s' > 0)"
proof (induction rule: while_loop.raw_induct [rotated 1, consumes 1])
  case (1 f s r)
  show ?case
  proof (cases "remaining_principal s > 0")
    case False
    with 1(2) have "months 0 s = r \<and>
        (case r of Inl e \<Rightarrow> True | Inr s' \<Rightarrow> \<not> remaining_principal s' > 0)"
      by auto
    then show ?thesis by blast
  next
    case True
    show ?thesis
    proof (cases "step s")
      case (Inl e)
      with True 1(2) have "months (Suc 0) s = r \<and>
          (case r of Inl e \<Rightarrow> True | Inr s' \<Rightarrow> \<not> remaining_principal s' > 0)"
        by auto
      then show ?thesis by blast
    next
      case (Inr s1)
      with True 1(2) have "f s1 = Some r" by simp
      from 1(1) [OF this] obtain k where "months k s1 = r"
        and fin: "(case r of Inl e \<Rightarrow> True | Inr s' \<Rightarrow> \<not> remaining_principal s' > 0)"
        by blast
      with True Inr have "months (Suc k) s = r" by simp
      with fin show ?thesis by blast
    qed
  qed
qed

lemma months_while_loop:
  "months k s = r \<Longrightarrow>
   (case r of Inl e \<Rightarrow> True | Inr s' \<Rightarrow> \<not> remaining_principal s' > 0) \<Longrightarrow>
     while_loop s = Some r"
proof (induction k arbitrary: s)
  case 0
  then show ?case by (subst while_loop.simps) auto
next
  case (Suc k)
  show ?case
  proof (cases "remaining_principal s > 0")
    case False
    with Suc.prems show ?thesis by (subst while_loop.simps) auto
  next
    case True
    show ?thesis
    proof (cases "step s")
      case (Inl e)
      with True Suc.prems show ?thesis by (subst while_loop.simps) auto
    next
      case (Inr s1)
      with True Suc.prems have "months k s1 = r" by simp
      from Suc.IH [OF this Suc.prems(2)] have "while_loop s1 = Some r" .
      with True Inr show ?thesis by (subst while_loop.simps) simp
    qed
  qed
qed

lemma LoanCalc_returns:
  assumes "LoanCalc l b ps es = Some (Inr evals)"
  obtains s0 s k where "init l b ps es = Inr s0" "months k s0 = Inr s"
    "\<not> remaining_principal s > 0" "evals = loan_evals s @ [snapshot s]"
proof -
  from assms obtain s0 s where i: "init l b ps es = Inr s0" and w: "while_loop s0 = Some (Inr s)"
    and e: "evals = loan_evals s @ [snapshot s]"
    by (auto simp: LoanCalc_def split: sum.splits option.splits)
  from while_loop_months [OF w] obtain k where "months k s0 = Inr s" "\<not> remaining_principal s > 0"
    by auto
  with i e that show ?thesis by blast
qed

lemma init_fields:
  assumes "init l b ps es = Inr s0"
  shows "loan s0 = l" "budget s0 = b" "exits s0 = es" "terms_paid s0 = 0"
    "loan_evals s0 = []" "current_exit s0 = 0" "last_exit s0 = (es = [])"
    "remaining_principal s0 = Loan.amount l" "budget_savings s0 = 0"
    "locals.interest_paid s0 = 0" "locals.fixed_period s0 = Loan.fixed_period l"
    "monthly_int s0 = Loan.rate l / (12 * 100)" "monthly_var_int s0 = var_int_of (var_rate l)"
    "GetMonthlyPayment l = Inr (monthly_payment s0)"
    "next_lump_sum s0 = (if ps \<noteq> [] then Some (last (rev ps)) else None)"
    "payments s0 = (if ps \<noteq> [] then butlast (rev ps) else ps)"
  using assms by (auto simp: init_def split: sum.splits)

section \<open>Evaluating the examples\<close>

lemmas body_defs = step_def before_interest_def exit_check_def lump_sum_def reamortize_def
  sweep_def charges_def accrue_def surcharge_def amortize_def overflow_def advance_def
  annual_def snapshot_def GetMonthlyPayment_unfold math_pow_def float_overflow_def
  var_int_of_def

lemmas ex_defs = ex_state_def ex_budget_def ex_loan_def ex_fixed_def ex_reamortizing_def

lemma ex_state_init: "init ex_loan b [] [] = Inr (ex_state b)"
  by (simp add: init_def ex_loan_def ex_state_def GetMonthlyPayment_unfold math_pow_def
        float_overflow_def var_int_of_def power2_eq_square)

section \<open>The savings sweep and the overflow\<close>

lemma before_interest_sweep:
  assumes "exit_check s = Inr s1" and "lump_sum s1 = Inr s2"
  shows "before_interest s = Inr (sweep s2)" "step s = Inr (charges (sweep s2))"
  using assms by (simp_all add: step_def before_interest_def)

text \<open>
  C6. In a pass of the loop, let \<open>s2\<close> be the state at the sweep, after the exit check
  and the lump sum. The pass sweeps and then accrues: its result is \<open>charges\<close> of the
  swept state. When the pending savings exceed \<open>min_principal_payment\<close> they are
  subtracted from the remaining principal and reset to 0, and the interest of that
  month, the one added to the interest paid, is the monthly rate times the reduced
  principal. When the savings are at or below the threshold the sweep changes neither
  the principal nor the savings.
\<close>

theorem savings_sweep:
  assumes "exit_check s = Inr s1" and "lump_sum s1 = Inr s2"
  shows "before_interest s = Inr (sweep s2) \<and>
    step s = Inr (charges (sweep s2)) \<and>
    (min_principal_payment (budget s2) < budget_savings s2 \<longrightarrow>
       remaining_principal (sweep s2) = remaining_principal s2 - budget_savings s2 \<and>
       budget_savings (sweep s2) = 0 \<and>
       month_interest (sweep s2) =
         monthly_int s2 * (remaining_principal s2 - budget_savings s2) \<and>
       locals.interest_paid (charges (sweep s2)) =
         (if locals.fixed_period s2 \<le> terms_paid s2
          then locals.interest_paid s2 +
               monthly_int s2 * (remaining_principal s2 - budget_savings s2) +
               (monthly_var_int s2 - monthly_int s2) *
                 (remaining_principal s2 - budget_savings s2)
          else locals.interest_paid s2 +
               monthly_int s2 * (remaining_principal s2 - budget_savings s2)) \<and>
       remaining_principal (charges (sweep s2)) =
         remaining_principal s2 - budget_savings s2 -
         (monthly_payment s2 -
          monthly_int s2 * (remaining_principal s2 - budget_savings s2))) \<and>
    (\<not> min_principal_payment (budget s2) < budget_savings s2 \<longrightarrow>
       remaining_principal (sweep s2) = remaining_principal s2 \<and>
       budget_savings (sweep s2) = budget_savings s2)"
  using before_interest_sweep [OF assms]
  by (simp add: sweep_values month_interest_eq charges_values(2,3))

theorem savings_sweep_witness:
  "exit_check ((ex_state ex_budget)\<lparr>budget_savings := 600\<rparr>) =
     Inr ((ex_state ex_budget)\<lparr>budget_savings := 600\<rparr>) \<and>
   lump_sum ((ex_state ex_budget)\<lparr>budget_savings := 600\<rparr>) =
     Inr ((ex_state ex_budget)\<lparr>budget_savings := 600\<rparr>) \<and>
   step ((ex_state ex_budget)\<lparr>budget_savings := 600\<rparr>) =
     Inr (charges (sweep ((ex_state ex_budget)\<lparr>budget_savings := 600\<rparr>))) \<and>
   remaining_principal (sweep ((ex_state ex_budget)\<lparr>budget_savings := 600\<rparr>)) = 19500 \<and>
   budget_savings (sweep ((ex_state ex_budget)\<lparr>budget_savings := 600\<rparr>)) = 0 \<and>
   month_interest (sweep ((ex_state ex_budget)\<lparr>budget_savings := 600\<rparr>)) = 195 \<and>
   locals.interest_paid
     (charges (sweep ((ex_state ex_budget)\<lparr>budget_savings := 600\<rparr>))) = 195 \<and>
   remaining_principal
     (charges (sweep ((ex_state ex_budget)\<lparr>budget_savings := 600\<rparr>))) = 9494 \<and>
   remaining_principal (sweep ((ex_state ex_budget)\<lparr>budget_savings := 100\<rparr>)) = 20100 \<and>
   budget_savings (sweep ((ex_state ex_budget)\<lparr>budget_savings := 100\<rparr>)) = 100"
proof -
  let ?S = "(ex_state ex_budget)\<lparr>budget_savings := 600\<rparr>"
  let ?T = "(ex_state ex_budget)\<lparr>budget_savings := 100\<rparr>"
  have e: "exit_check ?S = Inr ?S" "exit_check ?T = Inr ?T"
    by (simp_all add: exit_check_def ex_state_def)
  have l: "lump_sum ?S = Inr ?S" "lump_sum ?T = Inr ?T"
    by (simp_all add: lump_sum_def ex_state_def)
  from savings_sweep [OF e(1) l(1)] savings_sweep [OF e(2) l(2)] e l show ?thesis
    by (simp add: ex_state_def ex_budget_def)
qed

text \<open>
  C7, as the code has it. The pass of the loop that reaches the charges in state \<open>s1\<close>
  leaves the pending savings as follows. If \<open>overflow_principal_percent\<close> is set, they
  grow by \<open>monthly_leftover * (percent / 100)\<close>, whatever \<open>overflow_principal_abs\<close> is.
  Otherwise, if \<open>overflow_principal_abs\<close> is set and is not zero, they grow by
  \<open>min monthly_leftover overflow_principal_abs\<close>. Otherwise, with
  \<open>overflow_principal_abs\<close> absent or zero, they do not change. The sum is not clamped:
  a negative leftover is added as it is.
\<close>

theorem overflow_accumulation:
  assumes "before_interest s = Inr s1"
  shows "step s = Inr (charges s1) \<and>
    budget_savings (charges s1) =
      (case overflow_principal_percent (budget s1) of
         Some pc \<Rightarrow> budget_savings s1 + monthly_leftover s1 * (pc / 100)
       | None \<Rightarrow>
           (case overflow_principal_abs (budget s1) of
              None \<Rightarrow> budget_savings s1
            | Some a \<Rightarrow>
                if a = 0 then budget_savings s1
                else budget_savings s1 + min (monthly_leftover s1) a))"
  using assms by (simp add: step_def charges_values(4))

lemma ex_state_before_interest: "before_interest (ex_state b) = Inr (sweep (ex_state b))"
  by (simp add: before_interest_def exit_check_def lump_sum_def ex_state_def)

theorem overflow_accumulation_witness:
  "before_interest (ex_state (ex_budget\<lparr>monthly_income := 11201,
       overflow_principal_percent := Some 50, overflow_principal_abs := Some 300\<rparr>)) =
     Inr (ex_state (ex_budget\<lparr>monthly_income := 11201,
       overflow_principal_percent := Some 50, overflow_principal_abs := Some 300\<rparr>)) \<and>
   monthly_leftover (ex_state (ex_budget\<lparr>monthly_income := 11201,
       overflow_principal_percent := Some 50, overflow_principal_abs := Some 300\<rparr>)) = - 500 \<and>
   budget_savings (charges (ex_state (ex_budget\<lparr>monthly_income := 11201,
       overflow_principal_percent := Some 50, overflow_principal_abs := Some 300\<rparr>))) = - 250 \<and>
   budget_savings (charges (ex_state (ex_budget\<lparr>overflow_principal_abs := Some 300\<rparr>))) = 300 \<and>
   budget_savings (charges (ex_state (ex_budget\<lparr>monthly_income := 11201,
       overflow_principal_abs := Some 300\<rparr>))) = - 500 \<and>
   budget_savings (charges (ex_state (ex_budget\<lparr>overflow_principal_abs := Some 0\<rparr>))) = 0 \<and>
   budget_savings (charges (ex_state ex_budget)) = 0"
proof -
  have sw: "sweep (ex_state b) = ex_state b" if "min_principal_payment b = 100" for b
    using that by (simp add: sweep_def ex_state_def)
  have b: "before_interest (ex_state b) = Inr (ex_state b)" if "min_principal_payment b = 100" for b
    using that by (simp add: ex_state_before_interest sw)
  have b1: "before_interest (ex_state (ex_budget\<lparr>monthly_income := 11201,
       overflow_principal_percent := Some 50, overflow_principal_abs := Some 300\<rparr>)) =
     Inr (ex_state (ex_budget\<lparr>monthly_income := 11201,
       overflow_principal_percent := Some 50, overflow_principal_abs := Some 300\<rparr>))"
    by (rule b) (simp add: ex_budget_def)
  have b2: "before_interest (ex_state (ex_budget\<lparr>overflow_principal_abs := Some 300\<rparr>)) =
     Inr (ex_state (ex_budget\<lparr>overflow_principal_abs := Some 300\<rparr>))"
    by (rule b) (simp add: ex_budget_def)
  have b3: "before_interest (ex_state (ex_budget\<lparr>monthly_income := 11201,
       overflow_principal_abs := Some 300\<rparr>)) =
     Inr (ex_state (ex_budget\<lparr>monthly_income := 11201, overflow_principal_abs := Some 300\<rparr>))"
    by (rule b) (simp add: ex_budget_def)
  have b4: "before_interest (ex_state (ex_budget\<lparr>overflow_principal_abs := Some 0\<rparr>)) =
     Inr (ex_state (ex_budget\<lparr>overflow_principal_abs := Some 0\<rparr>))"
    by (rule b) (simp add: ex_budget_def)
  have b5: "before_interest (ex_state ex_budget) = Inr (ex_state ex_budget)"
    by (rule b) (simp add: ex_budget_def)
  from overflow_accumulation [OF b1] overflow_accumulation [OF b2]
    overflow_accumulation [OF b3] overflow_accumulation [OF b4]
    overflow_accumulation [OF b5] b1
  show ?thesis
    by (simp add: monthly_leftover_eq ex_state_def ex_budget_def)
qed

text \<open>
  The claim as written fails where \<open>overflow_principal_abs\<close> is set to 0 and the leftover
  is negative: the code adds nothing, the claim adds the negative leftover.
\<close>

theorem overflow_abs_zero_counterexample:
  "init ex_loan (ex_budget\<lparr>monthly_income := 11201, overflow_principal_abs := Some 0\<rparr>) [] [] =
     Inr (ex_state (ex_budget\<lparr>monthly_income := 11201, overflow_principal_abs := Some 0\<rparr>)) \<and>
   overflow_principal_percent (budget (ex_state
     (ex_budget\<lparr>monthly_income := 11201, overflow_principal_abs := Some 0\<rparr>))) = None \<and>
   overflow_principal_abs (budget (ex_state
     (ex_budget\<lparr>monthly_income := 11201, overflow_principal_abs := Some 0\<rparr>))) = Some 0 \<and>
   budget_savings (charges (ex_state
     (ex_budget\<lparr>monthly_income := 11201, overflow_principal_abs := Some 0\<rparr>))) = 0 \<and>
   budget_savings (ex_state
     (ex_budget\<lparr>monthly_income := 11201, overflow_principal_abs := Some 0\<rparr>)) +
   min (monthly_leftover (ex_state
     (ex_budget\<lparr>monthly_income := 11201, overflow_principal_abs := Some 0\<rparr>))) 0 = - 500"
  by (simp add: ex_state_init charges_values(4) monthly_leftover_eq ex_state_def ex_budget_def)

section \<open>The budget\<close>

text \<open>
  C10. One pass of the loop changes the working budget only by the yearly adjustment:
  when the month counter after its increment, plus \<open>month_offset\<close>, is a multiple of 12,
  \<open>monthly_income\<close> and \<open>monthly_expenses\<close> are multiplied by their growth factors, and
  no other field of the budget is written. So after any number of months
  \<open>monthly_prop_tax\<close>, \<open>min_principal_payment\<close>, \<open>overflow_principal_percent\<close> and
  \<open>overflow_principal_abs\<close> have the values they had at the start.
\<close>

theorem budget_frame:
  "(step s = Inr s' \<longrightarrow>
      budget s' =
        (if (terms_paid s + 1 + month_offset (budget s)) mod 12 = 0
         then (budget s)
           \<lparr>monthly_income := monthly_income (budget s) *
                (1 + salary_rate_increase (budget s) / 100),
            monthly_expenses := monthly_expenses (budget s) *
                (1 + expenses_rate_increase (budget s) / 100)\<rparr>
         else budget s)) \<and>
   (months k s = Inr s'' \<longrightarrow>
      monthly_prop_tax (budget s'') = monthly_prop_tax (budget s) \<and>
      min_principal_payment (budget s'') = min_principal_payment (budget s) \<and>
      overflow_principal_percent (budget s'') = overflow_principal_percent (budget s) \<and>
      overflow_principal_abs (budget s'') = overflow_principal_abs (budget s))"
proof (intro conjI impI)
  assume "step s = Inr s'"
  then show "budget s' =
        (if (terms_paid s + 1 + month_offset (budget s)) mod 12 = 0
         then (budget s)
           \<lparr>monthly_income := monthly_income (budget s) *
                (1 + salary_rate_increase (budget s) / 100),
            monthly_expenses := monthly_expenses (budget s) *
                (1 + expenses_rate_increase (budget s) / 100)\<rparr>
         else budget s)"
    by (rule step_budget)
next
  assume m: "months k s = Inr s''"
  define I where "I = (\<lambda>t::state. monthly_prop_tax (budget t) = monthly_prop_tax (budget s) \<and>
      min_principal_payment (budget t) = min_principal_payment (budget s) \<and>
      overflow_principal_percent (budget t) = overflow_principal_percent (budget s) \<and>
      overflow_principal_abs (budget t) = overflow_principal_abs (budget s))"
  have "I s''"
  proof (rule months_invariant [where I = I, OF _ _ m])
    show "I s" by (simp add: I_def)
  next
    fix t t' assume "I t" "step t = Inr t'"
    then show "I t'" by (simp add: I_def step_budget [of t t'])
  qed
  then show "monthly_prop_tax (budget s'') = monthly_prop_tax (budget s)"
    "min_principal_payment (budget s'') = min_principal_payment (budget s)"
    "overflow_principal_percent (budget s'') = overflow_principal_percent (budget s)"
    "overflow_principal_abs (budget s'') = overflow_principal_abs (budget s)"
    by (simp_all add: I_def)
qed

theorem budget_frame_witness:
  "step (ex_state (ex_budget\<lparr>overflow_principal_abs := Some 300\<rparr>)) =
     Inr (projr (step (ex_state (ex_budget\<lparr>overflow_principal_abs := Some 300\<rparr>)))) \<and>
   monthly_income (budget (projr (step
     (ex_state (ex_budget\<lparr>overflow_principal_abs := Some 300\<rparr>))))) = 139711 / 10 \<and>
   monthly_expenses (budget (projr (step
     (ex_state (ex_budget\<lparr>overflow_principal_abs := Some 300\<rparr>))))) = 1050 \<and>
   months 2 (ex_state (ex_budget\<lparr>overflow_principal_abs := Some 300\<rparr>)) =
     Inr (projr (months 2 (ex_state (ex_budget\<lparr>overflow_principal_abs := Some 300\<rparr>)))) \<and>
   monthly_prop_tax (budget (projr (months 2
     (ex_state (ex_budget\<lparr>overflow_principal_abs := Some 300\<rparr>))))) = 500 \<and>
   overflow_principal_abs (budget (projr (months 2
     (ex_state (ex_budget\<lparr>overflow_principal_abs := Some 300\<rparr>))))) = Some 300"
proof -
  let ?S = "ex_state (ex_budget\<lparr>overflow_principal_abs := Some 300\<rparr>)"
  have st: "step ?S = Inr (projr (step ?S))"
    by (simp add: body_defs ex_state_def ex_budget_def)
  have mo: "months 2 ?S = Inr (projr (months 2 ?S))"
    by (simp add: eval_nat_numeral body_defs ex_state_def ex_budget_def)
  from budget_frame [of ?S "projr (step ?S)" 2 "projr (months 2 ?S)"] st mo
  show ?thesis
    by (simp add: ex_state_def ex_budget_def)
qed

section \<open>The snapshots\<close>

lemma exit_check_evals:
  assumes "exit_check s = Inr s'"
  shows "loan_evals s' = loan_evals s \<or> loan_evals s' = loan_evals s @ [snapshot s]"
  using assms by (auto simp: exit_check_def split: if_splits)

lemma step_evals:
  assumes "step s = Inr s'"
  shows "loan_evals s' = loan_evals s \<or> loan_evals s' = loan_evals s @ [snapshot s]"
proof -
  from assms obtain s1 s2 where a: "exit_check s = Inr s1" and b: "lump_sum s1 = Inr s2"
    and c: "s' = charges (sweep s2)"
    by (rule step_cases)
  have "loan_evals s' = loan_evals s1"
    by (simp add: c lump_sum_frame(10) [OF b])
  with exit_check_evals [OF a] show ?thesis by simp
qed



section \<open>Reamortization and the fixed period\<close>

text \<open>
  C1 at a concrete run. \<open>ex_loan\<close> leaves its fixed period at month 1; the reamortizing
  payment of month 1 brings terms whose fixed period is one month, so the fixed period
  would end at month 2 and month 1 would bear no surcharge: the interest paid would be
  201 + 100 = 301. In the code the shifted period is stored in \<open>reamor_loan\<close> only, the
  loop's \<open>fixed_period\<close> keeps the value 1 it had, the surcharge of 100 is charged in
  month 1 and the interest paid is 401. The payment and the monthly rates are recomputed
  from the new terms and the reduced principal, as the claim says.
\<close>

theorem reamortization_keeps_fixed_period:
  "map_sum id locals.interest_paid (run_months 1 ex_loan ex_budget [ex_reamortizing] []) =
     Inr 201 \<and>
   map_sum id locals.fixed_period (run_months 2 ex_loan ex_budget [ex_reamortizing] []) =
     Inr 1 \<and>
   map_sum id (\<lambda>s. map_option Loan.fixed_period (reamor_loan s))
     (run_months 2 ex_loan ex_budget [ex_reamortizing] []) = Inr (Some 2) \<and>
   map_sum id monthly_payment (run_months 2 ex_loan ex_budget [ex_reamortizing] []) =
     Inr 10100 \<and>
   map_sum id locals.interest_paid (run_months 2 ex_loan ex_budget [ex_reamortizing] []) =
     Inr 401 \<and>
   LoanCalc ex_loan ex_budget [ex_reamortizing] [] =
     Some (Inr
       [\<lparr>loan_name = Some ''ARM'', principal_remaining = 0, principal_paid = 20100,
          interest_paid = 401, length' = 2, monthly_payments = 10100\<rparr>])"
  by (simp add: run_months_def eval_nat_numeral LoanCalc_def init_def while_loop.simps
        body_defs ex_defs power2_eq_square)

section \<open>The interest paid\<close>

lemma before_interest_frame:
  assumes "before_interest s = Inr s1"
  shows "locals.interest_paid s1 = locals.interest_paid s" "terms_paid s1 = terms_paid s"
    "locals.fixed_period s1 = locals.fixed_period s"
proof -
  from assms obtain t u where a: "exit_check s = Inr t" and b: "lump_sum t = Inr u"
    and c: "s1 = sweep u"
    by (auto simp: before_interest_def split: sum.splits)
  show "locals.interest_paid s1 = locals.interest_paid s"
    by (simp add: c lump_sum_frame(9) [OF b] exit_check_frame(13) [OF a])
  show "terms_paid s1 = terms_paid s"
    by (simp add: c lump_sum_frame(4) [OF b] exit_check_frame(7) [OF a])
  show "locals.fixed_period s1 = locals.fixed_period s"
    by (simp add: c lump_sum_frame(5) [OF b] exit_check_frame(10) [OF a])
qed

text \<open>
  C4 fails as written: in the second month of this run the savings swept into the
  principal exceed it, the interest of the month is negative and the interest paid falls
  from 201 to 102.
\<close>

theorem interest_paid_decreases_counterexample:
  "map_sum id locals.interest_paid
     (run_months 1 ex_fixed
        (ex_budget\<lparr>monthly_income := 31701, overflow_principal_percent := Some 100\<rparr>) [] []) =
     Inr 201 \<and>
   map_sum id locals.interest_paid
     (run_months 2 ex_fixed
        (ex_budget\<lparr>monthly_income := 31701, overflow_principal_percent := Some 100\<rparr>) [] []) =
     Inr 102"
  by (simp add: run_months_def eval_nat_numeral init_def body_defs ex_defs power2_eq_square)

text \<open>
  C4, amended. A pass of the loop adds to the interest paid first the interest of the
  month, the fixed monthly rate times the principal left by the lump sum and the sweep,
  and then, from the end of the fixed period on, the surcharge, the difference of the
  variable and the fixed monthly rate times that principal. So the interest paid does
  not decrease over a month in which neither amount added is negative.
\<close>

theorem interest_paid_monotone:
  assumes "before_interest s = Inr s1"
  shows "step s = Inr (charges s1) \<and>
    locals.interest_paid (charges s1) =
      (if locals.fixed_period s1 \<le> terms_paid s1
       then locals.interest_paid s + monthly_int s1 * remaining_principal s1 +
            (monthly_var_int s1 - monthly_int s1) * remaining_principal s1
       else locals.interest_paid s + monthly_int s1 * remaining_principal s1) \<and>
    (0 \<le> monthly_int s1 * remaining_principal s1 \<and>
     (locals.fixed_period s1 \<le> terms_paid s1 \<longrightarrow>
        0 \<le> (monthly_var_int s1 - monthly_int s1) * remaining_principal s1) \<longrightarrow>
       locals.interest_paid s
         \<le> locals.interest_paid s + monthly_int s1 * remaining_principal s1 \<and>
       locals.interest_paid s + monthly_int s1 * remaining_principal s1
         \<le> locals.interest_paid (charges s1) \<and>
       locals.interest_paid s \<le> locals.interest_paid (charges s1))"
  using assms
  by (simp add: step_def charges_values(3) before_interest_frame(1) [OF assms])

theorem interest_paid_monotone_witness:
  "before_interest ((ex_state ex_budget)\<lparr>terms_paid := 1, remaining_principal := 10100,
       locals.interest_paid := 201\<rparr>) =
     Inr ((ex_state ex_budget)\<lparr>terms_paid := 1, remaining_principal := 10100,
       locals.interest_paid := 201\<rparr>) \<and>
   locals.interest_paid (charges ((ex_state ex_budget)\<lparr>terms_paid := 1,
       remaining_principal := 10100, locals.interest_paid := 201\<rparr>)) = 201 + 101 + 101 \<and>
   locals.interest_paid ((ex_state ex_budget)\<lparr>terms_paid := 1, remaining_principal := 10100,
       locals.interest_paid := 201\<rparr>)
     \<le> locals.interest_paid (charges ((ex_state ex_budget)\<lparr>terms_paid := 1,
       remaining_principal := 10100, locals.interest_paid := 201\<rparr>))"
proof -
  let ?S = "(ex_state ex_budget)\<lparr>terms_paid := 1, remaining_principal := 10100,
       locals.interest_paid := 201\<rparr>"
  have b: "before_interest ?S = Inr ?S"
    by (simp add: before_interest_def exit_check_def lump_sum_def sweep_def ex_state_def
          ex_budget_def)
  from interest_paid_monotone [OF b] b show ?thesis
    by (simp add: ex_state_def)
qed

section \<open>The exits\<close>

lemma takeWhile_next_all:
  "length (takeWhile (\<lambda>e. 0 \<le> e \<and> e < t) es) = length es \<Longrightarrow>
     takeWhile (\<lambda>e. 0 \<le> e \<and> e < t + 1) es = takeWhile (\<lambda>e. 0 \<le> e \<and> e < t) (es :: int list)"
proof (induction es)
  case Nil
  then show ?case by simp
next
  case (Cons x xs)
  have le: "length (takeWhile (\<lambda>e. 0 \<le> e \<and> e < t) xs) \<le> length xs"
    by (rule length_takeWhile_le)
  from Cons.prems le have x: "0 \<le> x \<and> x < t"
    by (auto split: if_splits)
  with Cons show ?case by simp
qed

lemma takeWhile_next_miss:
  "n = length (takeWhile (\<lambda>e. 0 \<le> e \<and> e < t) es) \<Longrightarrow> n < length es \<Longrightarrow> es ! n \<noteq> t \<Longrightarrow>
     takeWhile (\<lambda>e. 0 \<le> e \<and> e < t + 1) es = takeWhile (\<lambda>e. 0 \<le> e \<and> e < t) (es :: int list)"
proof (induction es arbitrary: n)
  case Nil
  then show ?case by simp
next
  case (Cons x xs)
  show ?case
  proof (cases "0 \<le> x \<and> x < t")
    case True
    with Cons.prems obtain m where m: "n = Suc m" "m = length (takeWhile (\<lambda>e. 0 \<le> e \<and> e < t) xs)"
      by simp
    with Cons.prems True have "m < length xs" "xs ! m \<noteq> t" by simp_all
    from Cons.IH [OF m(2) this] True show ?thesis by simp
  next
    case False
    with Cons.prems have n0: "n = 0" by simp
    with Cons.prems have "x \<noteq> t" by simp
    with False show ?thesis by auto
  qed
qed

lemma takeWhile_next_hit:
  "sorted_wrt (<) es \<Longrightarrow> 0 \<le> t \<Longrightarrow>
   n = length (takeWhile (\<lambda>e. 0 \<le> e \<and> e < t) es) \<Longrightarrow> n < length es \<Longrightarrow> es ! n = t \<Longrightarrow>
     takeWhile (\<lambda>e. 0 \<le> e \<and> e < t + 1) es =
       takeWhile (\<lambda>e. 0 \<le> e \<and> e < t) (es :: int list) @ [t]"
proof (induction es arbitrary: n)
  case Nil
  then show ?case by simp
next
  case (Cons x xs)
  show ?case
  proof (cases "0 \<le> x \<and> x < t")
    case True
    with Cons.prems obtain m where m: "n = Suc m" "m = length (takeWhile (\<lambda>e. 0 \<le> e \<and> e < t) xs)"
      by simp
    with Cons.prems True have "sorted_wrt (<) xs" "m < length xs" "xs ! m = t" by simp_all
    from Cons.IH [OF this(1) Cons.prems(2) m(2) this(2,3)] True show ?thesis by simp
  next
    case False
    with Cons.prems have "n = 0" by simp
    with Cons.prems have x: "x = t" by simp
    from Cons.prems(1) x have "\<forall>y \<in> set xs. t < y" by simp
    then have "takeWhile (\<lambda>e. 0 \<le> e \<and> e < t + 1) xs = []"
      by (cases xs) auto
    with x Cons.prems(2) show ?thesis by simp
  qed
qed

text \<open>The exit check moves the cursor from month \<open>t\<close> to month \<open>t + 1\<close>, and cannot fail.\<close>

lemma exit_check_exits_inv:
  assumes "sorted_wrt (<) es" and "exits_inv es (terms_paid s) s" and "0 \<le> terms_paid s"
  shows "\<exists>s1. exit_check s = Inr s1 \<and> exits_inv es (terms_paid s + 1) s1"
proof (cases "last_exit s")
  case True
  with assms(2) have "length (takeWhile (\<lambda>e. 0 \<le> e \<and> e < terms_paid s) es) = length es"
    by (simp add: exits_inv_def) (metis length_map)
  from takeWhile_next_all [OF this] True assms(2) show ?thesis
    by (simp add: exit_check_def exits_inv_def)
next
  case False
  from assms(2) have n: "current_exit s = length (takeWhile (\<lambda>e. 0 \<le> e \<and> e < terms_paid s) es)"
    by (simp add: exits_inv_def) (metis length_map)
  have "length (takeWhile (\<lambda>e. 0 \<le> e \<and> e < terms_paid s) es) \<le> length es"
    by (rule length_takeWhile_le)
  with n False assms(2) have lt: "current_exit s < length es"
    by (simp add: exits_inv_def)
  from assms(2) have ex: "exits s = es" by (simp add: exits_inv_def)
  show ?thesis
  proof (cases "terms_paid s = es ! current_exit s")
    case True
    from takeWhile_next_hit [OF assms(1,3) n lt True [symmetric]]
    have "takeWhile (\<lambda>e. 0 \<le> e \<and> e < terms_paid s + 1) es =
        takeWhile (\<lambda>e. 0 \<le> e \<and> e < terms_paid s) es @ [terms_paid s]" .
    with True False lt ex assms(2) show ?thesis
      by (simp add: exit_check_def exits_inv_def snapshot_def)
  next
    case miss: False
    then have "es ! current_exit s \<noteq> terms_paid s" by simp
    from takeWhile_next_miss [OF n lt this]
    have "takeWhile (\<lambda>e. 0 \<le> e \<and> e < terms_paid s + 1) es =
        takeWhile (\<lambda>e. 0 \<le> e \<and> e < terms_paid s) es" .
    with miss False lt ex assms(2) show ?thesis
      by (simp add: exit_check_def exits_inv_def)
  qed
qed

lemma step_exits_inv:
  assumes "sorted_wrt (<) es" and "exits_inv es (terms_paid s) s" and "0 \<le> terms_paid s"
    and "step s = Inr s'"
  shows "exits_inv es (terms_paid s') s' \<and> 0 \<le> terms_paid s'"
proof -
  from assms(4) obtain s1 s2 where a: "exit_check s = Inr s1" and b: "lump_sum s1 = Inr s2"
    and c: "s' = charges (sweep s2)"
    by (rule step_cases)
  from exit_check_exits_inv [OF assms(1-3)] a have i: "exits_inv es (terms_paid s + 1) s1"
    by simp
  have f: "exits s' = exits s1" "loan_evals s' = loan_evals s1"
    "current_exit s' = current_exit s1" "last_exit s' = last_exit s1"
    by (simp_all add: c lump_sum_frame [OF b])
  have t: "terms_paid s' = terms_paid s + 1"
    by (rule step_frame(4) [OF assms(4)])
  from i f t assms(3) show ?thesis by (simp add: exits_inv_def)
qed

lemma step_evals_positive:
  assumes "step s = Inr s'" and "remaining_principal s > 0"
    and "\<forall>e \<in> set (loan_evals s). 0 < principal_remaining e"
  shows "\<forall>e \<in> set (loan_evals s'). 0 < principal_remaining e"
  using step_evals [OF assms(1)] assms(2,3) by (auto simp: snapshot_def)

text \<open>
  C2. Let the exits be strictly ascending and the run return, and let \<open>N\<close> be the
  \<open>length\<close> field of the last snapshot. The last snapshot is the one taken after the
  loop, with a principal not above zero, whereas every snapshot before it was taken in
  the loop, with a positive principal. The \<open>length\<close> fields of the snapshots are the
  leading exits that lie in \<open>0..<N\<close>, in order, followed by \<open>N\<close>. So if every exit lies
  in \<open>0..<N\<close> (is reached before payoff) there are \<open>length exits + 1\<close> snapshots, with
  the exit months in order and then \<open>N\<close>; an exit outside \<open>0..<N\<close> has no snapshot, and
  then there are fewer than \<open>length exits + 1\<close> snapshots.
\<close>

theorem exit_snapshots:
  assumes "sorted_wrt (<) es" and "LoanCalc l b ps es = Some (Inr evals)"
  shows "evals \<noteq> [] \<and>
    principal_remaining (last evals) \<le> 0 \<and>
    (\<forall>e \<in> set (butlast evals). 0 < principal_remaining e) \<and>
    map length' evals =
      takeWhile (\<lambda>e. 0 \<le> e \<and> e < length' (last evals)) es @ [length' (last evals)] \<and>
    ((\<forall>e \<in> set es. 0 \<le> e \<and> e < length' (last evals)) \<longrightarrow>
       length evals = length es + 1 \<and> map length' evals = es @ [length' (last evals)]) \<and>
    ((\<exists>e \<in> set es. \<not> (0 \<le> e \<and> e < length' (last evals))) \<longrightarrow>
       length evals < length es + 1) \<and>
    (\<forall>e \<in> set es. \<not> (0 \<le> e \<and> e < length' (last evals)) \<longrightarrow>
       e \<notin> set (map length' (butlast evals)))"
proof -
  from assms(2) obtain s0 s k where i: "init l b ps es = Inr s0" and m: "months k s0 = Inr s"
    and fin: "\<not> remaining_principal s > 0" and e: "evals = loan_evals s @ [snapshot s]"
    by (rule LoanCalc_returns)
  define I where "I = (\<lambda>t::state. exits_inv es (terms_paid t) t \<and> 0 \<le> terms_paid t \<and>
     (\<forall>e \<in> set (loan_evals t). 0 < principal_remaining e))"
  have "I s"
  proof (rule months_invariant [where I = I, OF _ _ m])
    have "takeWhile (\<lambda>e::int. 0 \<le> e \<and> e < 0) es = []"
      by (cases es) auto
    then show "I s0"
      by (simp add: I_def exits_inv_def init_fields(3-7) [OF i])
  next
    fix t t' assume t: "I t" "remaining_principal t > 0" "step t = Inr t'"
    from t(1) have "exits_inv es (terms_paid t) t" "0 \<le> terms_paid t"
      "\<forall>e \<in> set (loan_evals t). 0 < principal_remaining e"
      by (simp_all add: I_def)
    from step_exits_inv [OF assms(1) this(1,2) t(3)] step_evals_positive [OF t(3,2) this(3)]
    show "I t'" by (simp add: I_def)
  qed
  define N where "N = terms_paid s"
  have last: "last evals = snapshot s" "butlast evals = loan_evals s"
    by (simp_all add: e)
  have N: "length' (last evals) = N" "principal_remaining (last evals) \<le> 0"
    using fin by (simp_all add: last snapshot_def N_def)
  from \<open>I s\<close> have pos: "\<forall>e \<in> set (butlast evals). 0 < principal_remaining e"
    by (simp add: I_def last)
  from \<open>I s\<close> have tw: "map length' (loan_evals s) = takeWhile (\<lambda>e. 0 \<le> e \<and> e < N) es"
    by (simp add: I_def exits_inv_def N_def)
  then have lens: "map length' evals = takeWhile (\<lambda>e. 0 \<le> e \<and> e < N) es @ [N]"
    by (simp add: e snapshot_def N_def)
  have all: "length evals = length es + 1 \<and> map length' evals = es @ [N]"
    if "\<forall>e \<in> set es. 0 \<le> e \<and> e < N"
  proof -
    from that have "takeWhile (\<lambda>e. 0 \<le> e \<and> e < N) es = es"
      by (simp add: takeWhile_eq_all_conv)
    with lens have ml: "map length' evals = es @ [N]" by simp
    from arg_cong [OF ml, of length] have "length evals = length es + 1" by simp
    with ml show ?thesis by simp
  qed
  have none: "e \<notin> set (map length' (butlast evals))"
    if "e \<in> set es" "\<not> (0 \<le> e \<and> e < N)" for e
  proof
    assume "e \<in> set (map length' (butlast evals))"
    then have "e \<in> set (takeWhile (\<lambda>e. 0 \<le> e \<and> e < N) es)"
      by (simp only: last tw)
    then have "0 \<le> e \<and> e < N" by (rule set_takeWhileD [THEN conjunct2])
    with that(2) show False by simp
  qed
  have fewer: "length evals < length es + 1"
    if "\<exists>e \<in> set es. \<not> (0 \<le> e \<and> e < N)"
  proof -
    from that have "takeWhile (\<lambda>e. 0 \<le> e \<and> e < N) es \<noteq> es"
      by (simp add: takeWhile_eq_all_conv)
    moreover have "length (takeWhile (\<lambda>e. 0 \<le> e \<and> e < N) es) \<le> length es"
      by (rule length_takeWhile_le)
    ultimately have "length (takeWhile (\<lambda>e. 0 \<le> e \<and> e < N) es) < length es"
      by (metis le_neq_implies_less takeWhile_eq_take take_all)
    moreover have "length evals = length (takeWhile (\<lambda>e. 0 \<le> e \<and> e < N) es) + 1"
      using arg_cong [OF lens, of length] by simp
    ultimately show ?thesis by simp
  qed
  from N pos lens all none fewer show ?thesis
    by (simp add: e)
qed

theorem exit_snapshots_witness:
  "LoanCalc ex_loan ex_budget [] [0, 1] =
     Some (Inr
       [\<lparr>loan_name = Some ''ARM'', principal_remaining = 20100, principal_paid = 0,
          interest_paid = 0, length' = 0, monthly_payments = 10201\<rparr>,
        \<lparr>loan_name = Some ''ARM'', principal_remaining = 10100, principal_paid = 10000,
          interest_paid = 201, length' = 1, monthly_payments = 10201\<rparr>,
        \<lparr>loan_name = Some ''ARM'', principal_remaining = 0, principal_paid = 20100,
          interest_paid = 403, length' = 2, monthly_payments = 10201\<rparr>]) \<and>
   map length'
       [\<lparr>loan_name = Some ''ARM'', principal_remaining = 20100, principal_paid = 0,
          interest_paid = 0, length' = 0, monthly_payments = 10201\<rparr>,
        \<lparr>loan_name = Some ''ARM'', principal_remaining = 10100, principal_paid = 10000,
          interest_paid = 201, length' = 1, monthly_payments = 10201\<rparr>,
        \<lparr>loan_name = Some ''ARM'', principal_remaining = 0, principal_paid = 20100,
          interest_paid = 403, length' = 2, monthly_payments = 10201\<rparr>] = [0, 1] @ [2] \<and>
   LoanCalc ex_loan ex_budget [] [1, 5] =
     Some (Inr
       [\<lparr>loan_name = Some ''ARM'', principal_remaining = 10100, principal_paid = 10000,
          interest_paid = 201, length' = 1, monthly_payments = 10201\<rparr>,
        \<lparr>loan_name = Some ''ARM'', principal_remaining = 0, principal_paid = 20100,
          interest_paid = 403, length' = 2, monthly_payments = 10201\<rparr>]) \<and>
   length
       [\<lparr>loan_name = Some ''ARM'', principal_remaining = 10100, principal_paid = 10000,
          interest_paid = 201, length' = 1, monthly_payments = 10201\<rparr>,
        \<lparr>loan_name = Some ''ARM'', principal_remaining = 0, principal_paid = 20100,
          interest_paid = 403, length' = 2, monthly_payments = 10201\<rparr>]
     < length [1, 5 :: int] + 1"
proof -
  have s1: "sorted_wrt (<) [0, 1 :: int]" and s2: "sorted_wrt (<) [1, 5 :: int]"
    by simp_all
  have e1: "LoanCalc ex_loan ex_budget [] [0, 1] =
     Some (Inr
       [\<lparr>loan_name = Some ''ARM'', principal_remaining = 20100, principal_paid = 0,
          interest_paid = 0, length' = 0, monthly_payments = 10201\<rparr>,
        \<lparr>loan_name = Some ''ARM'', principal_remaining = 10100, principal_paid = 10000,
          interest_paid = 201, length' = 1, monthly_payments = 10201\<rparr>,
        \<lparr>loan_name = Some ''ARM'', principal_remaining = 0, principal_paid = 20100,
          interest_paid = 403, length' = 2, monthly_payments = 10201\<rparr>])"
    by (simp add: LoanCalc_def init_def while_loop.simps body_defs ex_defs power2_eq_square)
  have e2: "LoanCalc ex_loan ex_budget [] [1, 5] =
     Some (Inr
       [\<lparr>loan_name = Some ''ARM'', principal_remaining = 10100, principal_paid = 10000,
          interest_paid = 201, length' = 1, monthly_payments = 10201\<rparr>,
        \<lparr>loan_name = Some ''ARM'', principal_remaining = 0, principal_paid = 20100,
          interest_paid = 403, length' = 2, monthly_payments = 10201\<rparr>])"
    by (simp add: LoanCalc_def init_def while_loop.simps body_defs ex_defs power2_eq_square)
  from exit_snapshots [OF s1 e1] exit_snapshots [OF s2 e2] e1 e2 show ?thesis
    by simp
qed

section \<open>The variable-rate surcharge\<close>

lemma exit_check_cursor:
  assumes "exits s = exits t" "terms_paid s = terms_paid t" "current_exit s = current_exit t"
    "last_exit s = last_exit t"
  shows "(\<exists>e. exit_check s = Inl e \<and> exit_check t = Inl e) \<or>
     (\<exists>s1 t1. exit_check s = Inr s1 \<and> exit_check t = Inr t1 \<and>
        current_exit s1 = current_exit t1 \<and> last_exit s1 = last_exit t1)"
  using assms by (simp add: exit_check_def)

lemma lump_sum_none: "next_lump_sum s = None \<Longrightarrow> lump_sum s = Inr s"
  by (simp add: lump_sum_def)

lemma no_overflow_savings:
  assumes "no_overflow (budget s)" "budget_savings s = 0"
  shows "budget_savings (charges s) = 0"
  using assms by (simp add: charges_values(4) no_overflow_def split: option.splits)

lemma no_overflow_budget:
  assumes "no_overflow (budget s)"
  shows "no_overflow (budget (charges s))"
  using assms by (simp add: charges_values(5) no_overflow_def split: option.splits)

lemma step_same_schedule:
  assumes "same_schedule s t" and "no_overflow (budget s)"
  shows "(\<exists>e. step s = Inl e \<and> step t = Inl e) \<or>
     (\<exists>s' t'. step s = Inr s' \<and> step t = Inr t' \<and> same_schedule s' t' \<and>
        no_overflow (budget s'))"
proof -
  from assms(1) have eq: "budget s = budget t" "exits s = exits t"
    "monthly_payment s = monthly_payment t" "remaining_principal s = remaining_principal t"
    "terms_paid s = terms_paid t" "monthly_int s = monthly_int t"
    "current_exit s = current_exit t" "last_exit s = last_exit t"
    and nl: "next_lump_sum s = None" "next_lump_sum t = None"
    and sv: "budget_savings s = 0" "budget_savings t = 0"
    by (simp_all add: same_schedule_def)
  from exit_check_cursor [OF eq(2,5,7,8)] show ?thesis
  proof (elim disjE exE conjE)
    fix e assume "exit_check s = Inl e" "exit_check t = Inl e"
    then show ?thesis by (simp add: step_def before_interest_def)
  next
    fix s1 t1 assume x: "exit_check s = Inr s1" "exit_check t = Inr t1"
      and c: "current_exit s1 = current_exit t1" "last_exit s1 = last_exit t1"
    note fs = exit_check_frame [OF x(1)] and ft = exit_check_frame [OF x(2)]
    have ls: "lump_sum s1 = Inr s1" "lump_sum t1 = Inr t1"
      by (simp_all add: lump_sum_none fs(11) ft(11) nl)
    have st: "step s = Inr (charges (sweep s1))" "step t = Inr (charges (sweep t1))"
      by (simp_all add: step_def before_interest_def x ls)
    have b: "budget (sweep s1) = budget (sweep t1)" by (simp add: fs(2) ft(2) eq(1))
    have rp: "remaining_principal (sweep s1) = remaining_principal (sweep t1)"
      by (simp add: sweep_values fs(2,6,12) ft(2,6,12) eq(1,4) sv)
    have bs: "budget_savings (sweep s1) = 0" "budget_savings (sweep t1) = 0"
      by (simp_all add: sweep_values fs(12) ft(12) sv)
    have no: "no_overflow (budget (sweep s1))" "no_overflow (budget (sweep t1))"
      using assms(2) by (simp_all add: fs(2) ft(2) eq(1) [symmetric])
    have tp: "terms_paid (sweep s1) = terms_paid (sweep t1)" by (simp add: fs(7) ft(7) eq(5))
    have mp: "monthly_payment (sweep s1) = monthly_payment (sweep t1)"
      by (simp add: fs(5) ft(5) eq(3))
    have mi: "monthly_int (sweep s1) = monthly_int (sweep t1)" by (simp add: fs(8) ft(8) eq(6))
    have "same_schedule (charges (sweep s1)) (charges (sweep t1))"
      unfolding same_schedule_def
    proof (intro conjI)
      show "budget (charges (sweep s1)) = budget (charges (sweep t1))"
        by (simp only: charges_values(5) b tp)
      show "exits (charges (sweep s1)) = exits (charges (sweep t1))"
        by (simp add: fs(4) ft(4) eq(2))
      show "monthly_payment (charges (sweep s1)) = monthly_payment (charges (sweep t1))"
        by (simp add: fs(5) ft(5) eq(3))
      show "remaining_principal (charges (sweep s1)) = remaining_principal (charges (sweep t1))"
        by (simp only: charges_values(2) rp mp mi)
      show "terms_paid (charges (sweep s1)) = terms_paid (charges (sweep t1))"
        by (simp only: charges_values(1) tp)
      show "monthly_int (charges (sweep s1)) = monthly_int (charges (sweep t1))"
        by (simp add: fs(8) ft(8) eq(6))
      show "current_exit (charges (sweep s1)) = current_exit (charges (sweep t1))"
        by (simp add: c)
      show "last_exit (charges (sweep s1)) = last_exit (charges (sweep t1))"
        by (simp add: c)
      show "next_lump_sum (charges (sweep s1)) = None" by (simp add: fs(11) nl)
      show "next_lump_sum (charges (sweep t1)) = None" by (simp add: ft(11) nl)
      show "budget_savings (charges (sweep s1)) = 0" by (rule no_overflow_savings [OF no(1) bs(1)])
      show "budget_savings (charges (sweep t1)) = 0" by (rule no_overflow_savings [OF no(2) bs(2)])
    qed
    with st no_overflow_budget [OF no(1)] show ?thesis by simp
  qed
qed

lemma months_same_schedule:
  "same_schedule s t \<Longrightarrow> no_overflow (budget s) \<Longrightarrow>
     map_sum id remaining_principal (months k s) = map_sum id remaining_principal (months k t)"
proof (induction k arbitrary: s t)
  case 0
  then show ?case by (simp add: same_schedule_def)
next
  case (Suc k)
  from Suc.prems(1) have rp: "remaining_principal s = remaining_principal t"
    by (simp add: same_schedule_def)
  show ?case
  proof (cases "remaining_principal s > 0")
    case False
    with rp show ?thesis by simp
  next
    case True
    from step_same_schedule [OF Suc.prems] show ?thesis
    proof (elim disjE exE conjE)
      fix e assume "step s = Inl e" "step t = Inl e"
      with True rp show ?thesis by simp
    next
      fix s' t' assume st: "step s = Inr s'" "step t = Inr t'"
        and r: "same_schedule s' t'" "no_overflow (budget s')"
      from Suc.IH [OF r] st True rp show ?thesis by simp
    qed
  qed
qed

lemma GetMonthlyPayment_terms:
  "GetMonthlyPayment (l\<lparr>Loan.fixed_period := fp, var_rate := vr\<rparr>) = GetMonthlyPayment l"
  by (simp add: GetMonthlyPayment_def)

lemma run_months_same_schedule:
  assumes "no_overflow b"
  shows "map_sum id remaining_principal
       (run_months k (l\<lparr>Loan.fixed_period := fp, var_rate := vr\<rparr>) b [] es) =
     map_sum id remaining_principal (run_months k l b [] es)"
proof (cases "init l b [] es")
  case (Inl e)
  then have "GetMonthlyPayment l = Inl e"
    by (simp add: init_def split: sum.splits)
  then show ?thesis
    by (simp add: run_months_def init_def GetMonthlyPayment_terms)
next
  case (Inr s0)
  then obtain mp where mp: "GetMonthlyPayment l = Inr mp"
    by (auto simp: init_def split: sum.splits)
  then obtain t0 where t0: "init (l\<lparr>Loan.fixed_period := fp, var_rate := vr\<rparr>) b [] es = Inr t0"
    by (simp add: init_def GetMonthlyPayment_terms)
  note fs = init_fields [OF Inr] and ft = init_fields [OF t0]
  have "monthly_payment t0 = monthly_payment s0"
    using fs(14) ft(14) by (simp add: GetMonthlyPayment_terms)
  then have "same_schedule t0 s0"
    by (simp add: same_schedule_def fs(2-13,15) ft(2-13,15))
  moreover have "no_overflow (budget t0)" by (simp add: ft(2) assms)
  ultimately show ?thesis
    by (simp add: run_months_def Inr t0 months_same_schedule)
qed

text \<open>
  C5. In a month at or beyond the end of the fixed period, the surcharge
  \<open>(monthly_var_int - monthly_int) * remaining_principal\<close> is added to the interest paid
  and taken from the month's leftover, and the principal update is the one of the fixed
  rate. So, without lump sums and with a budget whose overflow adds nothing, the
  remaining principal after any number of months is the same for a loan and for the
  loan that differs from it in the fixed period and the variable rate only.
\<close>

theorem surcharge_leaves_schedule:
  "(locals.fixed_period s \<le> terms_paid s \<longrightarrow>
      locals.interest_paid (charges s) =
        locals.interest_paid s + month_interest s +
        (monthly_var_int s - monthly_int s) * remaining_principal s \<and>
      monthly_leftover s =
        fst (accrue s) - (monthly_var_int s - monthly_int s) * remaining_principal s \<and>
      remaining_principal (charges s) =
        remaining_principal s - (monthly_payment s - monthly_int s * remaining_principal s)) \<and>
   (no_overflow b \<longrightarrow>
      map_sum id remaining_principal
        (run_months k (l\<lparr>Loan.fixed_period := fp, var_rate := vr\<rparr>) b [] es) =
      map_sum id remaining_principal (run_months k l b [] es))"
  by (simp add: charges_values(2,3) month_interest_eq monthly_leftover_eq
        run_months_same_schedule)

theorem surcharge_leaves_schedule_witness:
  "locals.interest_paid (charges ((ex_state ex_budget)\<lparr>terms_paid := 1,
       remaining_principal := 10100, locals.interest_paid := 201\<rparr>)) = 201 + 101 + 101 \<and>
   monthly_leftover ((ex_state ex_budget)\<lparr>terms_paid := 1,
       remaining_principal := 10100, locals.interest_paid := 201\<rparr>) = 1000 - 101 \<and>
   remaining_principal (charges ((ex_state ex_budget)\<lparr>terms_paid := 1,
       remaining_principal := 10100, locals.interest_paid := 201\<rparr>)) = 0 \<and>
   no_overflow ex_budget \<and>
   ex_loan\<lparr>Loan.fixed_period := 2, var_rate := None\<rparr> = ex_fixed \<and>
   map_sum id remaining_principal (run_months 1 ex_loan ex_budget [] [1]) = Inr 10100 \<and>
   map_sum id remaining_principal (run_months 1 ex_fixed ex_budget [] [1]) = Inr 10100 \<and>
   map_sum id locals.interest_paid (run_months 2 ex_loan ex_budget [] [1]) = Inr 403 \<and>
   map_sum id locals.interest_paid (run_months 2 ex_fixed ex_budget [] [1]) = Inr 302"
proof -
  let ?S = "(ex_state ex_budget)\<lparr>terms_paid := 1, remaining_principal := 10100,
       locals.interest_paid := 201\<rparr>"
  have n: "no_overflow ex_budget" by (simp add: no_overflow_def ex_budget_def)
  have l: "ex_loan\<lparr>Loan.fixed_period := 2, var_rate := None\<rparr> = ex_fixed"
    by (simp add: ex_loan_def ex_fixed_def)
  have a: "map_sum id remaining_principal (run_months 1 ex_loan ex_budget [] [1]) = Inr 10100"
    by (simp add: run_months_def init_def body_defs ex_defs power2_eq_square)
  have i: "map_sum id locals.interest_paid (run_months 2 ex_loan ex_budget [] [1]) = Inr 403"
    "map_sum id locals.interest_paid (run_months 2 ex_fixed ex_budget [] [1]) = Inr 302"
    by (simp_all add: run_months_def eval_nat_numeral init_def body_defs ex_defs
          power2_eq_square)
  from surcharge_leaves_schedule [where s = ?S and b = ex_budget and k = 1 and l = ex_loan
      and fp = 2 and vr = None and es = "[1]"] n l a i
  show ?thesis
    by (simp add: month_interest_eq accrue_def Let_def ex_state_def ex_budget_def)
qed

section \<open>The store\<close>

lemma get_valid:
  "get_loan h r = Inr l \<Longrightarrow> r < length h \<and> h ! r = LoanObj l"
  "get_budget h r = Inr b \<Longrightarrow> r < length h \<and> h ! r = BudgetObj b"
  "get_payment h r = Inr p \<Longrightarrow> r < length h \<and> h ! r = PaymentObj p"
  "get_payments h r = Inr ps \<Longrightarrow> r < length h \<and> h ! r = PaymentList ps"
  "get_exits h r = Inr es \<Longrightarrow> r < length h \<and> h ! r = ExitList es"
  by (auto simp: get_loan_def get_budget_def get_payment_def get_payments_def get_exits_def
        split: if_splits obj.splits)

lemma get_nth:
  "r < length h \<Longrightarrow> h ! r = LoanObj l \<Longrightarrow> get_loan h r = Inr l"
  "r < length h \<Longrightarrow> h ! r = BudgetObj b \<Longrightarrow> get_budget h r = Inr b"
  "r < length h \<Longrightarrow> h ! r = PaymentObj p \<Longrightarrow> get_payment h r = Inr p"
  "r < length h \<Longrightarrow> h ! r = PaymentList ps \<Longrightarrow> get_payments h r = Inr ps"
  "r < length h \<Longrightarrow> h ! r = ExitList es \<Longrightarrow> get_exits h r = Inr es"
  by (simp_all add: get_loan_def get_budget_def get_payment_def get_payments_def get_exits_def)

text \<open>What an allocation and a write leave as it was.\<close>

lemma get_append:
  "r < length h \<Longrightarrow> get_loan (h @ [x]) r = get_loan h r"
  "r < length h \<Longrightarrow> get_budget (h @ [x]) r = get_budget h r"
  "r < length h \<Longrightarrow> get_payment (h @ [x]) r = get_payment h r"
  "r < length h \<Longrightarrow> get_payments (h @ [x]) r = get_payments h r"
  "r < length h \<Longrightarrow> get_exits (h @ [x]) r = get_exits h r"
  by (simp_all add: get_loan_def get_budget_def get_payment_def get_payments_def get_exits_def
        nth_append)

lemma get_put_other:
  "r' \<noteq> r \<Longrightarrow> get_loan (put h r x) r' = get_loan h r'"
  "r' \<noteq> r \<Longrightarrow> get_budget (put h r x) r' = get_budget h r'"
  "r' \<noteq> r \<Longrightarrow> get_payment (put h r x) r' = get_payment h r'"
  "r' \<noteq> r \<Longrightarrow> get_payments (put h r x) r' = get_payments h r'"
  "r' \<noteq> r \<Longrightarrow> get_exits (put h r x) r' = get_exits h r'"
  by (simp_all add: get_loan_def get_budget_def get_payment_def get_payments_def get_exits_def
        put_def)

lemma get_put_same:
  "r < length h \<Longrightarrow> get_loan (put h r (LoanObj l)) r = Inr l"
  "r < length h \<Longrightarrow> get_budget (put h r (BudgetObj b)) r = Inr b"
  "r < length h \<Longrightarrow> get_payments (put h r (PaymentList ps)) r = Inr ps"
  by (simp_all add: get_loan_def get_budget_def get_payments_def put_def)

lemma put_put: "put (put h r x) r y = put h r y"
  by (simp add: put_def)

lemma length_put [simp]: "length (put h r x) = length h"
  by (simp add: put_def)

lemma take_put: "n \<le> r \<Longrightarrow> take n (put h r x) = take n h"
  by (simp add: put_def)

lemma put_fresh: "put (h @ [x]) (length h) y = h @ [y]"
  by (simp add: put_def)

text \<open>The part of the store that the caller had is read as the caller left it.\<close>

lemma get_old:
  assumes "take (length h0) h = h0" and "length h0 \<le> length h" and "r < length h0"
  shows "get_loan h r = get_loan h0 r" "get_payment h r = get_payment h0 r"
proof -
  from assms have "h ! r = h0 ! r" by (metis nth_take)
  with assms show "get_loan h r = get_loan h0 r" "get_payment h r = get_payment h0 r"
    by (simp_all add: get_loan_def get_payment_def)
qed

lemma denotes_cases:
  assumes "denotes h0 r p"
  obtains hp where "get_payment h0 r = Inr hp" "r < length h0" "type' hp = type' p"
    "PrincipalPayment.amount hp = PrincipalPayment.amount p" "time hp = time p"
    "rel_option (\<lambda>lr l. get_loan h0 lr = Inr l \<and> lr < length h0)
       (new_loan_terms hp) (new_loan_terms p)"
proof -
  from assms obtain hp where g: "get_payment h0 r = Inr hp"
    by (auto simp: denotes_def deref_payment_def split: sum.splits)
  from get_valid(3) [OF g] have v: "r < length h0" by simp
  show ?thesis
  proof (cases "new_loan_terms hp")
    case None
    with assms g have p: "p = \<lparr>type' = type' hp, amount = PrincipalPayment.amount hp,
        time = time hp, new_loan_terms = None\<rparr>"
      by (simp add: denotes_def deref_payment_def)
    show ?thesis
    proof (rule that [OF g v])
      show "type' hp = type' p" "PrincipalPayment.amount hp = PrincipalPayment.amount p"
        "time hp = time p"
        by (simp_all add: p)
      show "rel_option (\<lambda>lr l. get_loan h0 lr = Inr l \<and> lr < length h0)
         (new_loan_terms hp) (new_loan_terms p)"
        by (simp add: p None)
    qed
  next
    case (Some lr)
    with assms g obtain l where l: "get_loan h0 lr = Inr l"
      and p: "p = \<lparr>type' = type' hp, amount = PrincipalPayment.amount hp,
        time = time hp, new_loan_terms = Some l\<rparr>"
      by (auto simp: denotes_def deref_payment_def split: sum.splits)
    from get_valid(1) [OF l] have lv: "lr < length h0" by simp
    show ?thesis
    proof (rule that [OF g v])
      show "type' hp = type' p" "PrincipalPayment.amount hp = PrincipalPayment.amount p"
        "time hp = time p"
        by (simp_all add: p)
      show "rel_option (\<lambda>lr l. get_loan h0 lr = Inr l \<and> lr < length h0)
         (new_loan_terms hp) (new_loan_terms p)"
        by (simp add: p Some l lv)
    qed
  qed
qed

text \<open>Writing an object over one of its class leaves the objects of other classes.\<close>

lemma put_budget_others:
  assumes "get_budget h r = Inr b0"
  shows "get_loan (put h r (BudgetObj b)) r' = get_loan h r'"
    "get_payments (put h r (BudgetObj b)) r' = get_payments h r'"
    "get_exits (put h r (BudgetObj b)) r' = get_exits h r'"
  using get_valid(2) [OF assms]
  by (auto simp: get_loan_def get_payments_def get_exits_def put_def nth_list_update)

lemma put_payments_others:
  assumes "get_payments h r = Inr ps0"
  shows "get_loan (put h r (PaymentList ps)) r' = get_loan h r'"
    "get_budget (put h r (PaymentList ps)) r' = get_budget h r'"
    "get_exits (put h r (PaymentList ps)) r' = get_exits h r'"
  using get_valid(4) [OF assms]
  by (auto simp: get_loan_def get_budget_def get_exits_def put_def nth_list_update)

section \<open>The engine on the store does what the engine on values does\<close>

lemma simD:
  assumes "sim h0 (h, v) s"
  shows "length h0 \<le> length h" "take (length h0) h = h0"
    "get_loan h (loan v) = Inr (loan s)"
    "get_budget h (budget v) = Inr (budget s)"
    "length h0 \<le> budget v"
    "\<exists>prs. get_payments h (payments v) = Inr prs \<and> list_all2 (denotes h0) prs (payments s)"
    "length h0 \<le> payments v"
    "get_exits h (exits v) = Inr (exits s)"
    "rel_option (denotes h0) (next_lump_sum v) (next_lump_sum s)"
    "same_numbers v s"
  using assms by (simp_all add: sim_def)

text \<open>A step that writes numbers only keeps the relation if the numbers still agree.\<close>

lemma sim_numbers:
  assumes "sim h0 (h, v) s"
    and "loan v' = loan v" "budget v' = budget v" "payments v' = payments v"
    "exits v' = exits v" "next_lump_sum v' = next_lump_sum v"
    and "loan s' = loan s" "budget s' = budget s" "payments s' = payments s"
    "exits s' = exits s" "next_lump_sum s' = next_lump_sum s"
    and "same_numbers v' s'"
  shows "sim h0 (h, v') s'"
  using assms by (simp add: sim_def)

lemma sweep_sim:
  assumes "sim h0 (h, v) s"
  shows "\<exists>v'. sweep_h h v = Inr v' \<and> sim h0 (h, v') (sweep s)"
proof -
  note b = simD(4) [OF assms] and n = simD(10) [OF assms]
  let ?v = "if budget_savings v > min_principal_payment (budget s)
     then v\<lparr>remaining_principal := remaining_principal v - budget_savings v,
            budget_savings := 0\<rparr>
     else v"
  have "sweep_h h v = Inr ?v" by (simp add: sweep_h_def b)
  moreover have "sim h0 (h, ?v) (sweep s)"
    using n by (intro sim_numbers [OF assms]) (simp_all add: same_numbers_def sweep_values)
  ultimately show ?thesis by blast
qed

lemma accrue_sim:
  assumes "sim h0 (h, v) s"
  shows "\<exists>v'. accrue_h h v = Inr (fst (accrue s), fst (snd (accrue s)), v') \<and>
    sim h0 (h, v') (snd (snd (accrue s)))"
proof -
  note b = simD(4) [OF assms] and n = simD(10) [OF assms]
  let ?v = "v\<lparr>locals.interest_paid :=
     locals.interest_paid v + monthly_int v * remaining_principal v\<rparr>"
  have "accrue_h h v = Inr (fst (accrue s), fst (snd (accrue s)), ?v)"
    using n by (simp add: accrue_h_def b Let_def same_numbers_def)
  moreover have "sim h0 (h, ?v) (snd (snd (accrue s)))"
    using n by (intro sim_numbers [OF assms]) (simp_all add: same_numbers_def)
  ultimately show ?thesis by blast
qed

lemma surcharge_sim:
  assumes "sim h0 (h, v) s"
  shows "fst (surcharge ms v) = fst (surcharge ms s) \<and>
    sim h0 (h, snd (surcharge ms v)) (snd (surcharge ms s))"
proof -
  note n = simD(10) [OF assms]
  have "fst (surcharge ms v) = fst (surcharge ms s)"
    using n by (simp add: same_numbers_def)
  moreover have "sim h0 (h, snd (surcharge ms v)) (snd (surcharge ms s))"
    using n by (intro sim_numbers [OF assms]) (simp_all add: same_numbers_def)
  ultimately show ?thesis by blast
qed

lemma amortize_sim:
  assumes "sim h0 (h, v) s"
  shows "sim h0 (h, amortize i v) (amortize i s)"
  using simD(10) [OF assms]
  by (intro sim_numbers [OF assms]) (simp_all add: same_numbers_def)

lemma advance_sim:
  assumes "sim h0 (h, v) s"
  shows "sim h0 (h, advance v) (advance s)"
  using simD(10) [OF assms]
  by (intro sim_numbers [OF assms]) (simp_all add: same_numbers_def)

lemma overflow_sim:
  assumes "sim h0 (h, v) s"
  shows "\<exists>v'. overflow_h h ms v = Inr v' \<and> sim h0 (h, v') (overflow ms s)"
proof -
  note b = simD(4) [OF assms] and n = simD(10) [OF assms]
  let ?v = "case overflow_principal_percent (budget s) of
      Some pc \<Rightarrow> v\<lparr>budget_savings := budget_savings v + ms * (pc / 100)\<rparr>
    | None \<Rightarrow>
        (case overflow_principal_abs (budget s) of
           None \<Rightarrow> v
         | Some a \<Rightarrow> if a = 0 then v
                     else v\<lparr>budget_savings := budget_savings v + min ms a\<rparr>)"
  have "overflow_h h ms v = Inr ?v" by (simp add: overflow_h_def b)
  moreover have "sim h0 (h, ?v) (overflow ms s)"
    using n
    by (intro sim_numbers [OF assms])
       (simp_all add: same_numbers_def overflow_value split: option.splits)
  ultimately show ?thesis by blast
qed

lemma annual_sim:
  assumes "sim h0 (h, v) s"
  shows "\<exists>h'. annual_h h v = Inr (h', v) \<and> sim h0 (h', v) (annual s)"
proof (cases "(terms_paid s + month_offset (budget s)) mod 12 = 0")
  case False
  with simD(4,10) [OF assms] have "annual_h h v = Inr (h, v)"
    by (simp add: annual_h_def same_numbers_def)
  moreover from False have "annual s = s" by (simp add: annual_def)
  ultimately show ?thesis using assms by simp
next
  case True
  note d = simD [OF assms]
  let ?b1 = "(budget s)\<lparr>monthly_income := monthly_income (budget s) *
       (1 + salary_rate_increase (budget s) / 100)\<rparr>"
  let ?b2 = "?b1\<lparr>monthly_expenses := monthly_expenses (budget s) *
       (1 + expenses_rate_increase (budget s) / 100)\<rparr>"
  let ?h = "put h (budget v) (BudgetObj ?b2)"
  from get_valid(2) [OF d(4)] have bv: "budget v < length h" by simp
  have run: "annual_h h v = Inr (?h, v)"
    using True d(4,10) bv
    by (simp add: annual_h_def same_numbers_def Let_def get_put_same put_put)
  have bs: "budget (annual s) = ?b2"
    using True by (simp add: annual_value)
  have "sim h0 (?h, v) (annual s)"
    unfolding sim_def fst_conv snd_conv
  proof (intro conjI)
    show "length h0 \<le> length ?h" using d(1) by simp
    show "take (length h0) ?h = h0" using d(2,5) by (simp add: take_put)
    show "get_loan ?h (loan v) = Inr (loan (annual s))"
      using d(3) by (simp add: put_budget_others [OF d(4)])
    show "get_budget ?h (budget v) = Inr (budget (annual s))"
      using bv by (simp only: bs get_put_same)
    show "length h0 \<le> budget v" by (rule d(5))
    show "\<exists>prs. get_payments ?h (payments v) = Inr prs \<and>
        list_all2 (denotes h0) prs (payments (annual s))"
      using d(6) by (simp add: put_budget_others [OF d(4)])
    show "length h0 \<le> payments v" by (rule d(7))
    show "get_exits ?h (exits v) = Inr (exits (annual s))"
      using d(8) by (simp add: put_budget_others [OF d(4)])
    show "rel_option (denotes h0) (next_lump_sum v) (next_lump_sum (annual s))"
      using d(9) by simp
    show "same_numbers v (annual s)"
      using d(10) by (simp add: same_numbers_def)
  qed
  with run show ?thesis by blast
qed

lemma charges_sim:
  assumes "sim h0 (h, v) s"
  shows "\<exists>h' v'. charges_h h v = Inr (h', v') \<and> sim h0 (h', v') (charges s)"
proof -
  from accrue_sim [OF assms] obtain v1
    where a: "accrue_h h v = Inr (fst (accrue s), fst (snd (accrue s)), v1)"
      and s1: "sim h0 (h, v1) (snd (snd (accrue s)))"
    by blast
  let ?s1 = "snd (snd (accrue s))"
  from surcharge_sim [OF s1, of "fst (accrue s)"]
  have f: "fst (surcharge (fst (accrue s)) v1) = monthly_leftover s"
    and s2: "sim h0 (h, snd (surcharge (fst (accrue s)) v1))
       (snd (surcharge (fst (accrue s)) ?s1))"
    by (simp_all only: monthly_leftover_def case_prod_beta)
  from amortize_sim [OF s2, of "month_interest s"]
  have s3: "sim h0 (h, amortize (month_interest s) (snd (surcharge (fst (accrue s)) v1)))
      (amortize (month_interest s) (snd (surcharge (fst (accrue s)) ?s1)))" .
  from overflow_sim [OF s3, of "monthly_leftover s"] obtain v4
    where o: "overflow_h h (monthly_leftover s)
        (amortize (month_interest s) (snd (surcharge (fst (accrue s)) v1))) = Inr v4"
      and s4: "sim h0 (h, v4) (overflow (monthly_leftover s)
        (amortize (month_interest s) (snd (surcharge (fst (accrue s)) ?s1))))"
    by blast
  from annual_sim [OF advance_sim [OF s4]] obtain h' where
    an: "annual_h h (advance v4) = Inr (h', advance v4)"
    and s5: "sim h0 (h', advance v4) (charges s)"
    by (simp only: charges_unfold) blast
  have "charges_h h v = Inr (h', advance v4)"
    by (simp only: charges_h_def a sum.case prod.case case_prod_beta fst_conv snd_conv f
          o [unfolded month_interest_def] an)
  with s5 show ?thesis by blast
qed

lemma sim_alloc:
  assumes "sim h0 (h, v) s"
  shows "sim h0 (h @ [x], v) s"
proof -
  note d = simD [OF assms]
  from d(6) obtain prs where prs: "get_payments h (payments v) = Inr prs"
    "list_all2 (denotes h0) prs (payments s)" by blast
  have v: "loan v < length h" "budget v < length h" "payments v < length h"
    "exits v < length h"
    using get_valid(1) [OF d(3)] get_valid(2) [OF d(4)] get_valid(4) [OF prs(1)]
      get_valid(5) [OF d(8)] by simp_all
  show ?thesis
    unfolding sim_def fst_conv snd_conv
  proof (intro conjI)
    show "length h0 \<le> length (h @ [x])" using d(1) by simp
    show "take (length h0) (h @ [x]) = h0" using d(1,2) by simp
    show "get_loan (h @ [x]) (loan v) = Inr (loan s)" using d(3) v by (simp add: get_append)
    show "get_budget (h @ [x]) (budget v) = Inr (budget s)"
      using d(4) v by (simp add: get_append)
    show "length h0 \<le> budget v" by (rule d(5))
    show "\<exists>prs. get_payments (h @ [x]) (payments v) = Inr prs \<and>
        list_all2 (denotes h0) prs (payments s)"
      using prs v by (simp add: get_append)
    show "length h0 \<le> payments v" by (rule d(7))
    show "get_exits (h @ [x]) (exits v) = Inr (exits s)" using d(8) v by (simp add: get_append)
    show "rel_option (denotes h0) (next_lump_sum v) (next_lump_sum s)" by (rule d(9))
    show "same_numbers v s" by (rule d(10))
  qed
qed

lemma exit_check_sim:
  assumes "sim h0 (h, v) s"
  shows "rel_sum (=) (\<lambda>v' s'. sim h0 (h, v') s') (exit_check_h h v) (exit_check s)"
proof -
  note d = simD [OF assms]
  from d(10) have n: "last_exit v = last_exit s" "current_exit v = current_exit s"
    "terms_paid v = terms_paid s" "loan_evals v = loan_evals s"
    by (simp_all add: same_numbers_def)
  have sn: "snapshot_h h v = Inr (snapshot s)"
    using d(3,10) by (simp add: snapshot_h_def snapshot_def same_numbers_def)
  show ?thesis
  proof (cases "last_exit s")
    case True
    with n assms show ?thesis by (simp add: exit_check_h_def exit_check_def)
  next
    case False
    note le = this
    show ?thesis
    proof (cases "current_exit s < length (exits s)")
      case False
      with le n d(8) show ?thesis by (simp add: exit_check_h_def exit_check_def)
    next
      case True
      note lt = this
      show ?thesis
      proof (cases "terms_paid s = exits s ! current_exit s")
        case False
        with le lt n d(8) assms show ?thesis by (simp add: exit_check_h_def exit_check_def)
      next
        case True
        let ?v = "v\<lparr>current_exit := current_exit v + 1,
            last_exit := (current_exit v + 1 = length (exits s)),
            loan_evals := loan_evals v @ [snapshot s]\<rparr>"
        let ?s = "s\<lparr>current_exit := current_exit s + 1,
            last_exit := (current_exit s + 1 = length (exits s)),
            loan_evals := loan_evals s @ [snapshot s]\<rparr>"
        have "exit_check_h h v = Inr ?v"
          using True le lt n d(8) sn by (simp add: exit_check_h_def)
        moreover have "exit_check s = Inr ?s"
          using True le lt by (simp add: exit_check_def)
        moreover have "sim h0 (h, ?v) ?s"
          using d(10) by (intro sim_numbers [OF assms]) (simp_all add: same_numbers_def)
        ultimately show ?thesis by simp
      qed
    qed
  qed
qed

lemma get_loan_fresh: "get_loan (h @ [LoanObj l]) (length h) = Inr l"
  by (simp add: get_loan_def)

lemma reamortize_sim:
  assumes "sim h0 (h, v) s"
    and "rel_option (\<lambda>lr l. get_loan h0 lr = Inr l \<and> lr < length h0)
       (new_loan_terms hp) (new_loan_terms p)"
  shows "rel_sum (same_error h0) (sim h0) (reamortize_h h hp v) (reamortize p s)"
proof (cases "new_loan_terms p")
  case None
  with assms(2) have "new_loan_terms hp = None" by (cases "new_loan_terms hp") simp_all
  with None simD(1,2) [OF assms(1)] show ?thesis
    by (simp add: reamortize_h_def reamortize_def same_error_def)
next
  case (Some terms)
  with assms(2) obtain lr where lr: "new_loan_terms hp = Some lr"
    "get_loan h0 lr = Inr terms" "lr < length h0"
    by (cases "new_loan_terms hp") simp_all
  note d = simD [OF assms(1)]
  from d(10) have n: "remaining_principal v = remaining_principal s"
    "terms_paid v = terms_paid s"
    by (simp_all add: same_numbers_def)
  have gl: "get_loan h lr = Inr terms"
    using get_old(1) [OF d(2,1) lr(3)] lr(2) by simp
  let ?l2 = "terms\<lparr>Loan.amount := remaining_principal s\<rparr>"
  let ?l3 = "?l2\<lparr>Loan.fixed_period := Loan.fixed_period ?l2 + terms_paid s\<rparr>"
  show ?thesis
  proof (cases "GetMonthlyPayment ?l2")
    case (Inl e)
    then have "reamortize p s = Inl e" by (simp add: reamortize_def Some Let_def)
    moreover have "reamortize_h h hp v = Inl (e, h @ [LoanObj ?l2])"
      using Inl
      by (simp add: reamortize_h_def lr(1) gl alloc_def get_loan_fresh put_fresh n Let_def)
    ultimately show ?thesis using d(1,2) by (simp add: same_error_def)
  next
    case (Inr mp)
    let ?v = "v\<lparr>monthly_payment := mp, monthly_int := Loan.rate ?l3 / (12 * 100),
        monthly_var_int := var_int_of (var_rate ?l3), reamor_loan := Some (length h)\<rparr>"
    let ?s = "s\<lparr>monthly_payment := mp, monthly_int := Loan.rate ?l3 / (12 * 100),
        monthly_var_int := var_int_of (var_rate ?l3), reamor_loan := Some ?l3\<rparr>"
    have a: "reamortize p s = Inr ?s"
      using Inr by (simp add: reamortize_def Some Let_def)
    have b: "reamortize_h h hp v = Inr (h @ [LoanObj ?l3], ?v)"
      using Inr
      by (simp add: reamortize_h_def lr(1) gl alloc_def get_loan_fresh put_fresh n Let_def)
    have "sim h0 (h @ [LoanObj ?l3], ?v) ?s"
      using d(10)
      by (intro sim_numbers [OF sim_alloc [OF assms(1)]]) (simp_all add: same_numbers_def)
    with a b show ?thesis by simp
  qed
qed

text \<open>Popping the copy of the list of payments.\<close>

lemma pop_sim:
  assumes "sim h0 (h, v) s"
  shows "\<exists>prs. get_payments h (payments v) = Inr prs \<and> (prs = [] \<longleftrightarrow> payments s = []) \<and>
    (payments s \<noteq> [] \<longrightarrow>
       (\<exists>h'. list_pop h (payments v) = Inr (last prs, h') \<and>
          sim h0 (h', v\<lparr>next_lump_sum := Some (last prs)\<rparr>)
            (s\<lparr>next_lump_sum := Some (last (payments s)),
               payments := butlast (payments s)\<rparr>))) \<and>
    (payments s = [] \<longrightarrow>
       sim h0 (h, v\<lparr>next_lump_sum := None\<rparr>) (s\<lparr>next_lump_sum := None\<rparr>))"
proof -
  note d = simD [OF assms]
  from d(6) obtain prs where prs: "get_payments h (payments v) = Inr prs"
    "list_all2 (denotes h0) prs (payments s)" by blast
  have em: "prs = [] \<longleftrightarrow> payments s = []"
    using prs(2) by (auto simp: list_all2_Nil list_all2_Nil2)
  have none: "sim h0 (h, v\<lparr>next_lump_sum := None\<rparr>) (s\<lparr>next_lump_sum := None\<rparr>)"
    using d by (simp add: sim_def same_numbers_def)
  have some: "\<exists>h'. list_pop h (payments v) = Inr (last prs, h') \<and>
          sim h0 (h', v\<lparr>next_lump_sum := Some (last prs)\<rparr>)
            (s\<lparr>next_lump_sum := Some (last (payments s)),
               payments := butlast (payments s)\<rparr>)"
    if ne: "payments s \<noteq> []"
  proof -
    from ne em have pne: "prs \<noteq> []" by simp
    let ?h = "put h (payments v) (PaymentList (butlast prs))"
    have pop: "list_pop h (payments v) = Inr (last prs, ?h)"
      using pne by (simp add: list_pop_def prs(1))
    from get_valid(4) [OF prs(1)] have pv: "payments v < length h" by simp
    have len: "length prs = length (payments s)"
      using prs(2) by (rule list_all2_lengthD)
    have la: "denotes h0 (last prs) (last (payments s))"
      using prs(2) pne ne len by (simp add: last_conv_nth list_all2_nthD)
    have bl: "list_all2 (denotes h0) (butlast prs) (butlast (payments s))"
      using prs(2) len by (simp add: butlast_conv_take list_all2_takeI)
    have "sim h0 (?h, v\<lparr>next_lump_sum := Some (last prs)\<rparr>)
            (s\<lparr>next_lump_sum := Some (last (payments s)),
               payments := butlast (payments s)\<rparr>)"
      unfolding sim_def fst_conv snd_conv
    proof (intro conjI)
      show "length h0 \<le> length ?h" using d(1) by simp
      show "take (length h0) ?h = h0" using d(2,7) by (simp add: take_put)
      show "get_loan ?h (loan (v\<lparr>next_lump_sum := Some (last prs)\<rparr>)) =
          Inr (loan (s\<lparr>next_lump_sum := Some (last (payments s)),
               payments := butlast (payments s)\<rparr>))"
        using d(3) by (simp add: put_payments_others [OF prs(1)])
      show "get_budget ?h (budget (v\<lparr>next_lump_sum := Some (last prs)\<rparr>)) =
          Inr (budget (s\<lparr>next_lump_sum := Some (last (payments s)),
               payments := butlast (payments s)\<rparr>))"
        using d(4) by (simp add: put_payments_others [OF prs(1)])
      show "length h0 \<le> budget (v\<lparr>next_lump_sum := Some (last prs)\<rparr>)"
        using d(5) by simp
      show "\<exists>qs. get_payments ?h (payments (v\<lparr>next_lump_sum := Some (last prs)\<rparr>)) = Inr qs \<and>
          list_all2 (denotes h0) qs
            (payments (s\<lparr>next_lump_sum := Some (last (payments s)),
               payments := butlast (payments s)\<rparr>))"
        using pv bl by (simp add: get_put_same)
      show "length h0 \<le> payments (v\<lparr>next_lump_sum := Some (last prs)\<rparr>)"
        using d(7) by simp
      show "get_exits ?h (exits (v\<lparr>next_lump_sum := Some (last prs)\<rparr>)) =
          Inr (exits (s\<lparr>next_lump_sum := Some (last (payments s)),
               payments := butlast (payments s)\<rparr>))"
        using d(8) by (simp add: put_payments_others [OF prs(1)])
      show "rel_option (denotes h0)
          (next_lump_sum (v\<lparr>next_lump_sum := Some (last prs)\<rparr>))
          (next_lump_sum (s\<lparr>next_lump_sum := Some (last (payments s)),
               payments := butlast (payments s)\<rparr>))"
        using la by simp
      show "same_numbers (v\<lparr>next_lump_sum := Some (last prs)\<rparr>)
          (s\<lparr>next_lump_sum := Some (last (payments s)),
               payments := butlast (payments s)\<rparr>)"
        using d(10) by (simp add: same_numbers_def)
    qed
    with pop show ?thesis by blast
  qed
  from prs(1) em none some show ?thesis by blast
qed

lemma rel_sum_InlD: "rel_sum (=) R x (Inl e) \<Longrightarrow> x = Inl e"
  by (cases x) simp_all

lemma rel_sum_errD:
  "rel_sum (same_error h0) R x (Inl e) \<Longrightarrow>
     \<exists>h'. x = Inl (e, h') \<and> length h0 \<le> length h' \<and> take (length h0) h' = h0"
  by (cases x) (auto simp: same_error_def)

lemma rel_sum_InrD: "rel_sum E R x (Inr b) \<Longrightarrow> \<exists>a. x = Inr a \<and> R a b"
  by (cases x) simp_all

lemma same_error_sim:
  assumes "sim h0 (h, v) s"
  shows "same_error h0 (e, h) e"
  using simD(1,2) [OF assms] by (simp add: same_error_def)

lemma lump_sum_sim:
  assumes "sim h0 (h, v) s"
  shows "rel_sum (same_error h0) (sim h0) (lump_sum_h h v) (lump_sum s)"
proof (cases "next_lump_sum s")
  case None
  with simD(9) [OF assms] have "next_lump_sum v = None"
    by (cases "next_lump_sum v") simp_all
  with None assms show ?thesis by (simp add: lump_sum_h_def lump_sum_def)
next
  case (Some p)
  note d = simD [OF assms]
  from Some d(9) obtain r where r: "next_lump_sum v = Some r" "denotes h0 r p"
    by (cases "next_lump_sum v") simp_all
  from r(2) obtain hp where hp: "get_payment h0 r = Inr hp" "r < length h0"
    "type' hp = type' p" "PrincipalPayment.amount hp = PrincipalPayment.amount p"
    "time hp = time p"
    "rel_option (\<lambda>lr l. get_loan h0 lr = Inr l \<and> lr < length h0)
       (new_loan_terms hp) (new_loan_terms p)"
    by (rule denotes_cases)
  have gp: "get_payment h r = Inr hp"
    using get_old(2) [OF d(2,1) hp(2)] hp(1) by simp
  from d(10) have n: "terms_paid v = terms_paid s"
    "remaining_principal v = remaining_principal s"
    by (simp_all add: same_numbers_def)
  show ?thesis
  proof (cases "time p = terms_paid s")
    case False
    with Some r(1) gp hp(5) n assms show ?thesis
      by (simp add: lump_sum_h_def lump_sum_def)
  next
    case True
    let ?v1 = "v\<lparr>remaining_principal := remaining_principal v - PrincipalPayment.amount hp\<rparr>"
    let ?s1 = "s\<lparr>remaining_principal := remaining_principal s - PrincipalPayment.amount p\<rparr>"
    let ?mh = "if type' hp = REAMORTIZING then reamortize_h h hp ?v1 else Inr (h, ?v1)"
    let ?ms = "if type' p = REAMORTIZING then reamortize p ?s1 else Inr ?s1"
    have s1: "sim h0 (h, ?v1) ?s1"
      using d(10) hp(4)
      by (intro sim_numbers [OF assms]) (simp_all add: same_numbers_def)
    have mid: "rel_sum (same_error h0) (sim h0) ?mh ?ms"
      using reamortize_sim [OF s1 hp(6)] s1 hp(3) by simp
    have lh: "lump_sum_h h v =
        (case ?mh of
           Inl x \<Rightarrow> Inl x
         | Inr (h2, v2) \<Rightarrow>
             (case get_payments h2 (payments v2) of
                Inl e \<Rightarrow> Inl (e, h2)
              | Inr ps \<Rightarrow>
                  if ps \<noteq> []
                  then (case list_pop h2 (payments v2) of
                          Inl e \<Rightarrow> Inl (e, h2)
                        | Inr (nxt, h3) \<Rightarrow> Inr (h3, v2\<lparr>next_lump_sum := Some nxt\<rparr>))
                  else Inr (h2, v2\<lparr>next_lump_sum := None\<rparr>)))"
      using True hp(5) n(1) by (simp add: lump_sum_h_def r(1) gp Let_def)
    have ls: "lump_sum s =
        (case ?ms of
           Inl e \<Rightarrow> Inl e
         | Inr s2 \<Rightarrow>
             Inr (if payments s2 \<noteq> []
                  then s2\<lparr>next_lump_sum := Some (last (payments s2)),
                          payments := butlast (payments s2)\<rparr>
                  else s2\<lparr>next_lump_sum := None\<rparr>))"
      using True by (simp add: lump_sum_def Some Let_def)
    show ?thesis
    proof (cases ?ms)
      case (Inl e)
      with mid obtain h' where "?mh = Inl (e, h')" "same_error h0 (e, h') e"
        using rel_sum_errD [of h0 "sim h0" ?mh e] by (auto simp: same_error_def)
      with Inl show ?thesis by (simp only: lh ls sum.case rel_sum.intros)
    next
      case (Inr s2)
      with mid obtain hv2 where hv2: "?mh = Inr hv2" "sim h0 hv2 s2"
        using rel_sum_InrD [of "same_error h0" "sim h0" ?mh s2] by auto
      obtain h2 v2 where hv: "hv2 = (h2, v2)" by (cases hv2)
      from pop_sim [OF hv2(2) [unfolded hv]] obtain prs where
        prs: "get_payments h2 (payments v2) = Inr prs" "prs = [] \<longleftrightarrow> payments s2 = []"
        and some: "payments s2 \<noteq> [] \<longrightarrow>
          (\<exists>h'. list_pop h2 (payments v2) = Inr (last prs, h') \<and>
             sim h0 (h', v2\<lparr>next_lump_sum := Some (last prs)\<rparr>)
               (s2\<lparr>next_lump_sum := Some (last (payments s2)),
                   payments := butlast (payments s2)\<rparr>))"
        and none: "payments s2 = [] \<longrightarrow>
          sim h0 (h2, v2\<lparr>next_lump_sum := None\<rparr>) (s2\<lparr>next_lump_sum := None\<rparr>)"
        by blast
      show ?thesis
      proof (cases "payments s2 = []")
        case True
        with prs(2) have "prs = []" by simp
        with True none show ?thesis
          by (simp add: lh ls hv2(1) hv Inr prs(1))
      next
        case False
        with prs(2) have pne: "prs \<noteq> []" by simp
        from False some obtain h' where
          h': "list_pop h2 (payments v2) = Inr (last prs, h')"
          "sim h0 (h', v2\<lparr>next_lump_sum := Some (last prs)\<rparr>)
               (s2\<lparr>next_lump_sum := Some (last (payments s2)),
                   payments := butlast (payments s2)\<rparr>)"
          by blast
        with False pne show ?thesis
          by (simp add: lh ls hv2(1) hv Inr prs(1))
      qed
    qed
  qed
qed

lemma step_sim:
  assumes "sim h0 hv s"
  shows "rel_sum (same_error h0) (sim h0) (step_h hv) (step s)"
proof -
  obtain h v where hv: "hv = (h, v)" by (cases hv)
  note a = assms [unfolded hv]
  show ?thesis
  proof (cases "exit_check s")
    case (Inl e)
    with exit_check_sim [OF a] have "exit_check_h h v = Inl e"
      by (simp only: rel_sum_InlD)
    with Inl same_error_sim [OF a] show ?thesis
      by (simp add: step_h_def step_def before_interest_def hv)
  next
    case (Inr s1)
    with exit_check_sim [OF a] obtain v1 where v1: "exit_check_h h v = Inr v1"
      "sim h0 (h, v1) s1"
      using rel_sum_InrD [of "(=)" "\<lambda>v' s'. sim h0 (h, v') s'" "exit_check_h h v" s1] by auto
    show ?thesis
    proof (cases "lump_sum s1")
      case (Inl e)
      with lump_sum_sim [OF v1(2)] obtain h' where "lump_sum_h h v1 = Inl (e, h')"
        "same_error h0 (e, h') e"
        using rel_sum_errD [of h0 "sim h0" "lump_sum_h h v1" e] by (auto simp: same_error_def)
      with Inl Inr v1(1) show ?thesis
        by (simp add: step_h_def step_def before_interest_def hv)
    next
      case s2: (Inr s2)
      with lump_sum_sim [OF v1(2)] obtain hv2 where hv2: "lump_sum_h h v1 = Inr hv2"
        "sim h0 hv2 s2"
        using rel_sum_InrD [of "same_error h0" "sim h0" "lump_sum_h h v1" s2] by auto
      obtain h2 v2 where p2: "hv2 = (h2, v2)" by (cases hv2)
      from sweep_sim [OF hv2(2) [unfolded p2]] obtain v3 where
        v3: "sweep_h h2 v2 = Inr v3" "sim h0 (h2, v3) (sweep s2)" by blast
      from charges_sim [OF v3(2)] obtain h4 v4 where
        v4: "charges_h h2 v3 = Inr (h4, v4)" "sim h0 (h4, v4) (charges (sweep s2))" by blast
      have "step_h hv = Inr (h4, v4)"
        by (simp add: step_h_def hv v1(1) hv2(1) p2 v3(1) v4(1))
      moreover have "step s = Inr (charges (sweep s2))"
        by (simp add: step_def before_interest_def Inr s2)
      ultimately show ?thesis using v4(2) by simp
    qed
  qed
qed

text \<open>The two loops return together, in related states or with the same fault.\<close>

lemma while_loop_sim:
  assumes "while_loop s = Some r"
  shows "\<forall>hv. sim h0 hv s \<longrightarrow>
    (\<exists>rh. while_loop_h hv = Some rh \<and> rel_sum (same_error h0) (sim h0) rh r)"
  using assms
proof (induction rule: while_loop.raw_induct [rotated 1, consumes 1])
  case (1 f s r)
  show ?case
  proof (intro allI impI)
    fix hv assume sm: "sim h0 hv s"
    obtain h v where hv: "hv = (h, v)" by (cases hv)
    from simD(10) [OF sm [unfolded hv]] have rp: "remaining_principal (snd hv) = remaining_principal s"
      by (simp add: same_numbers_def hv)
    show "\<exists>rh. while_loop_h hv = Some rh \<and> rel_sum (same_error h0) (sim h0) rh r"
    proof (cases "remaining_principal s > 0")
      case False
      with 1(2) have "r = Inr s" by simp
      moreover from False rp have "while_loop_h hv = Some (Inr hv)"
        by (subst while_loop_h.simps) simp
      ultimately show ?thesis using sm by simp
    next
      case True
      show ?thesis
      proof (cases "step s")
        case (Inl e)
        with True 1(2) have "r = Inl e" by simp
        moreover from step_sim [OF sm] Inl obtain h' where x: "step_h hv = Inl (e, h')"
          "same_error h0 (e, h') e"
          using rel_sum_errD [of h0 "sim h0" "step_h hv" e] by (auto simp: same_error_def)
        from True rp x(1) have "while_loop_h hv = Some (Inl (e, h'))"
          by (subst while_loop_h.simps) simp
        ultimately show ?thesis using x(2) by simp
      next
        case (Inr s')
        with True 1(2) have "f s' = Some r" by simp
        from step_sim [OF sm] Inr obtain hv' where hv': "step_h hv = Inr hv'" "sim h0 hv' s'"
          using rel_sum_InrD [of "same_error h0" "sim h0" "step_h hv" s'] by auto
        from 1(1) [OF \<open>f s' = Some r\<close>] hv'(2) obtain rh where
          "while_loop_h hv' = Some rh" "rel_sum (same_error h0) (sim h0) rh r" by blast
        moreover from True rp hv'(1) have "while_loop_h hv = while_loop_h hv'"
          by (subst while_loop_h.simps) simp
        ultimately show ?thesis by simp
      qed
    qed
  qed
qed

lemma while_loop_h_sim:
  assumes "while_loop_h hv = Some rh"
  shows "\<forall>s. sim h0 hv s \<longrightarrow> (\<exists>r. while_loop s = Some r)"
  using assms
proof (induction rule: while_loop_h.raw_induct [rotated 1, consumes 1])
  case (1 f hv rh)
  show ?case
  proof (intro allI impI)
    fix s assume sm: "sim h0 hv s"
    obtain h v where hv: "hv = (h, v)" by (cases hv)
    from simD(10) [OF sm [unfolded hv]] have rp: "remaining_principal (snd hv) = remaining_principal s"
      by (simp add: same_numbers_def hv)
    show "\<exists>r. while_loop s = Some r"
    proof (cases "remaining_principal s > 0")
      case False
      then have "while_loop s = Some (Inr s)" by (subst while_loop.simps) simp
      then show ?thesis by blast
    next
      case True
      show ?thesis
      proof (cases "step s")
        case (Inl e)
        with True have "while_loop s = Some (Inl e)" by (subst while_loop.simps) simp
        then show ?thesis by blast
      next
        case (Inr s')
        from step_sim [OF sm] Inr obtain hv' where hv': "step_h hv = Inr hv'" "sim h0 hv' s'"
          using rel_sum_InrD [of "same_error h0" "sim h0" "step_h hv" s'] by auto
        with True rp 1(2) have "f hv' = Some rh" by simp
        from 1(1) [OF this] hv'(2) obtain r where "while_loop s' = Some r" by blast
        moreover from True Inr have "while_loop s = while_loop s'"
          by (subst while_loop.simps) simp
        ultimately show ?thesis by simp
      qed
    qed
  qed
qed

text \<open>The copies that the call makes first are related to the values of its arguments.\<close>

lemma denotes_last_butlast:
  assumes "list_all2 (denotes h0) prs ps" and "ps \<noteq> []"
  shows "denotes h0 (last (rev prs)) (last (rev ps))"
    and "list_all2 (denotes h0) (butlast (rev prs)) (butlast (rev ps))"
proof -
  from assms obtain r rs p qs where c: "prs = r # rs" "ps = p # qs"
    by (cases prs; cases ps) simp_all
  with assms(1) show "denotes h0 (last (rev prs)) (last (rev ps))" by simp
  from assms(1) c show "list_all2 (denotes h0) (butlast (rev prs)) (butlast (rev ps))"
    by (simp add: butlast_append)
qed

lemma init_h_value:
  assumes "get_loan h0 lr = Inr l" and "get_budget h0 br = Inr b"
    and "get_payments h0 pr = Inr prs" and "get_exits h0 er = Inr es"
  shows "init_h h0 lr br pr er =
    (case GetMonthlyPayment l of
       Inl e \<Rightarrow> Inl (e, h0 @ [LoanObj l, BudgetObj b, PaymentList prs, ExitList es])
     | Inr mp \<Rightarrow>
         Inr (h0 @ [LoanObj l, BudgetObj b,
                    PaymentList (if prs \<noteq> [] then butlast (rev prs) else prs), ExitList es],
              \<lparr>loan = length h0, budget = Suc (length h0),
               payments = Suc (Suc (length h0)), exits = Suc (Suc (Suc (length h0))),
               monthly_payment = mp,
               remaining_principal = Loan.amount l,
               terms_paid = 0,
               monthly_int = Loan.rate l / (12 * 100),
               monthly_var_int = var_int_of (var_rate l),
               fixed_period = Loan.fixed_period l,
               next_lump_sum = (if prs \<noteq> [] then Some (last (rev prs)) else None),
               budget_savings = 0,
               current_exit = 0,
               last_exit = (es = []),
               interest_paid = 0,
               loan_evals = [],
               reamor_loan = None\<rparr>))"
proof -
  note v = get_valid(1) [OF assms(1)] get_valid(2) [OF assms(2)] get_valid(4) [OF assms(3)]
    get_valid(5) [OF assms(4)]
  show ?thesis
    using v
    by (simp add: init_h_def alloc_def get_loan_def get_budget_def get_payments_def
        get_exits_def list_reverse_def list_pop_def put_def nth_append list_update_append
        split: sum.splits)
qed

lemma init_sim:
  assumes "get_loan h0 lr = Inr l" and "get_budget h0 br = Inr b"
    and "get_payments h0 pr = Inr prs" and "list_all2 (denotes h0) prs ps"
    and "get_exits h0 er = Inr es"
  shows "rel_sum (same_error h0) (sim h0) (init_h h0 lr br pr er) (init l b ps es)"
proof (cases "GetMonthlyPayment l")
  case (Inl e)
  then show ?thesis
    by (simp add: init_h_value [OF assms(1,2,3,5)] init_def same_error_def)
next
  case (Inr mp)
  from assms(4) have e: "prs = [] \<longleftrightarrow> ps = []" by (cases prs; cases ps) simp_all
  show ?thesis
  proof (cases "ps = []")
    case True
    with e have "prs = []" by simp
    with True Inr show ?thesis
      by (simp add: init_h_value [OF assms(1,2,3,5)] init_def sim_def same_numbers_def
          get_loan_def get_budget_def get_payments_def get_exits_def nth_append)
  next
    case False
    with e have "prs \<noteq> []" by simp
    with False Inr denotes_last_butlast [OF assms(4) False] show ?thesis
      by (simp add: init_h_value [OF assms(1,2,3,5)] init_def sim_def same_numbers_def
          get_loan_def get_budget_def get_payments_def get_exits_def nth_append)
  qed
qed

section \<open>The objects of the caller\<close>

lemma snapshot_sim:
  assumes "sim h0 (h, v) s"
  shows "snapshot_h h v = Inr (snapshot s)" "loan_evals v = loan_evals s"
  using simD(3,10) [OF assms]
  by (simp_all add: snapshot_h_def snapshot_def same_numbers_def)

text \<open>
  The engine on the store and the engine on values end together: neither returns, or
  both raise the same error, or both return the same snapshots; and the store that the
  call leaves begins with the store it was entered with.
\<close>

lemma LoanCalc_sim:
  assumes "get_loan h lr = Inr l" and "get_budget h br = Inr b"
    and "get_payments h pr = Inr prs" and "list_all2 (denotes h) prs ps"
    and "get_exits h er = Inr es"
  shows "rel_option
    (rel_sum (same_error h) (\<lambda>rh res. fst rh = res \<and> length h \<le> length (snd rh) \<and>
        take (length h) (snd rh) = h))
    (LoanCalc_h h lr br pr er) (LoanCalc l b ps es)"
proof (cases "init l b ps es")
  case (Inl e)
  with init_sim [OF assms] obtain h' where "init_h h lr br pr er = Inl (e, h')"
    "same_error h (e, h') e"
    using rel_sum_errD [of h "sim h" "init_h h lr br pr er" e] by (auto simp: same_error_def)
  with Inl show ?thesis by (simp add: LoanCalc_h_def LoanCalc_def)
next
  case (Inr s0)
  with init_sim [OF assms] obtain hv0 where hv0: "init_h h lr br pr er = Inr hv0"
    "sim h hv0 s0"
    using rel_sum_InrD [of "same_error h" "sim h" "init_h h lr br pr er" s0] by auto
  show ?thesis
  proof (cases "while_loop s0")
    case None
    have "while_loop_h hv0 = None"
    proof (cases "while_loop_h hv0")
      case (Some rh)
      from while_loop_h_sim [where ?h0.0 = h, OF Some] hv0(2) None have False by auto
      then show ?thesis ..
    qed simp
    with None Inr hv0(1) show ?thesis by (simp add: LoanCalc_h_def LoanCalc_def)
  next
    case (Some r)
    from while_loop_sim [OF Some] hv0(2) obtain rh where
      rh: "while_loop_h hv0 = Some rh" "rel_sum (same_error h) (sim h) rh r" by blast
    show ?thesis
    proof (cases r)
      case (Inl e)
      with rh(2) obtain h' where "rh = Inl (e, h')" "same_error h (e, h') e"
        using rel_sum_errD [of h "sim h" rh e] by (auto simp: same_error_def)
      with Inl Some Inr hv0(1) rh(1) show ?thesis
        by (simp add: LoanCalc_h_def LoanCalc_def)
    next
      case s: (Inr s)
      with rh(2) obtain hv where hv: "rh = Inr hv" "sim h hv s"
        using rel_sum_InrD [of "same_error h" "sim h" rh s] by auto
      obtain h1 v where p: "hv = (h1, v)" by (cases hv)
      note sm = hv(2) [unfolded p]
      from snapshot_sim [OF sm] simD(1,2) [OF sm] s Some Inr hv0(1) rh(1) hv(1) p
      show ?thesis
        by (simp add: LoanCalc_h_def LoanCalc_def)
    qed
  qed
qed

text \<open>What a reference of the caller denotes, it denotes after the call.\<close>

lemma nth_old:
  assumes "take (length h0) h = h0" and "length h0 \<le> length h" and "r < length h0"
  shows "h ! r = h0 ! r"
  using assms by (metis nth_take)

lemma get_old_all:
  assumes "take (length h0) h = h0" and "length h0 \<le> length h"
  shows "get_loan h0 r = Inr l \<Longrightarrow> get_loan h r = Inr l"
    and "get_budget h0 r = Inr b \<Longrightarrow> get_budget h r = Inr b"
    and "get_payment h0 r = Inr p \<Longrightarrow> get_payment h r = Inr p"
    and "get_payments h0 r = Inr ps \<Longrightarrow> get_payments h r = Inr ps"
    and "get_exits h0 r = Inr es \<Longrightarrow> get_exits h r = Inr es"
proof -
  show "get_loan h0 r = Inr l \<Longrightarrow> get_loan h r = Inr l"
    using get_valid(1) [of h0 r l] nth_old [OF assms, of r] assms(2)
    by (intro get_nth(1)) auto
  show "get_budget h0 r = Inr b \<Longrightarrow> get_budget h r = Inr b"
    using get_valid(2) [of h0 r b] nth_old [OF assms, of r] assms(2)
    by (intro get_nth(2)) auto
  show "get_payment h0 r = Inr p \<Longrightarrow> get_payment h r = Inr p"
    using get_valid(3) [of h0 r p] nth_old [OF assms, of r] assms(2)
    by (intro get_nth(3)) auto
  show "get_payments h0 r = Inr ps \<Longrightarrow> get_payments h r = Inr ps"
    using get_valid(4) [of h0 r ps] nth_old [OF assms, of r] assms(2)
    by (intro get_nth(4)) auto
  show "get_exits h0 r = Inr es \<Longrightarrow> get_exits h r = Inr es"
    using get_valid(5) [of h0 r es] nth_old [OF assms, of r] assms(2)
    by (intro get_nth(5)) auto
qed

lemma denotes_old:
  assumes "take (length h0) h = h0" and "length h0 \<le> length h" and "denotes h0 r p"
  shows "denotes h r p"
proof -
  from assms(3) obtain hp where g: "get_payment h0 r = Inr hp"
    by (auto simp: denotes_def deref_payment_def split: sum.splits)
  note g' = get_old_all(3) [OF assms(1,2) g]
  show ?thesis
  proof (cases "new_loan_terms hp")
    case None
    with assms(3) g g' show ?thesis by (simp add: denotes_def deref_payment_def)
  next
    case (Some lr)
    with assms(3) g obtain l where l: "get_loan h0 lr = Inr l"
      by (auto simp: denotes_def deref_payment_def split: sum.splits)
    from get_old_all(1) [OF assms(1,2) l] l Some assms(3) g g' show ?thesis
      by (simp add: denotes_def deref_payment_def)
  qed
qed

lemma take_take_old:
  assumes "take (length h0) h1 = h0" and "length h0 \<le> length h1"
    and "take (length h1) h2 = h1"
  shows "take (length h0) h2 = h0"
proof -
  have "take (length h0) h2 = take (length h0) (take (length h1) h2)"
    using assms(2) by (simp add: min_def)
  with assms(1,3) show ?thesis by simp
qed

text \<open>A call in a store that begins with \<open>h\<close>, unchanged, ends as the call in \<open>h\<close> does.\<close>

lemma LoanCalc_sim_again:
  assumes "get_loan h lr = Inr l" and "get_budget h br = Inr b"
    and "get_payments h pr = Inr prs" and "list_all2 (denotes h) prs ps"
    and "get_exits h er = Inr es"
    and pre: "take (length h) h' = h" and len: "length h \<le> length h'"
  shows "rel_option
    (rel_sum (\<lambda>x e. fst x = e \<and> take (length h) (snd x) = h)
       (\<lambda>rh res. fst rh = res \<and> take (length h) (snd rh) = h))
    (LoanCalc_h h' lr br pr er) (LoanCalc l b ps es)"
proof -
  have d: "list_all2 (denotes h') prs ps"
    using assms(4) denotes_old [OF pre len]
    by (rule list_all2_mono)
  note r = LoanCalc_sim [OF get_old_all(1) [OF pre len assms(1)]
      get_old_all(2) [OF pre len assms(2)] get_old_all(4) [OF pre len assms(3)] d
      get_old_all(5) [OF pre len assms(5)]]
  show ?thesis
  proof (cases "LoanCalc_h h' lr br pr er")
    case None
    with r show ?thesis by (cases "LoanCalc l b ps es") simp_all
  next
    case (Some x)
    with r obtain y where y: "LoanCalc l b ps es = Some y"
      by (cases "LoanCalc l b ps es") simp_all
    show ?thesis
    proof (cases x)
      case (Inl eh)
      with r Some y obtain e where e: "y = Inl e" "same_error h' eh e"
        by (cases y) simp_all
      from e(2) have "take (length h) (snd eh) = h"
        using take_take_old [OF pre len, of "snd eh"] by (simp add: same_error_def)
      with e Inl Some y show ?thesis by (simp add: same_error_def)
    next
      case (Inr rh)
      with r Some y obtain res where e: "y = Inr res" "fst rh = res"
        "take (length h') (snd rh) = h'"
        by (cases y) simp_all
      from e(3) have "take (length h) (snd rh) = h"
        using take_take_old [OF pre len, of "snd rh"] by simp
      with e Inr Some y show ?thesis by simp
    qed
  qed
qed

text \<open>
  C8. The objects of the caller live in the store \<open>h\<close>, and the arguments of the call are
  references into it: to a loan, to a budget, to a list of references to payments (a
  payment may refer to a loan as its new terms) and to a list of exits. Whatever the
  store holds and however its objects share one another, the call ends as the engine on
  the values of its arguments does: it does not return, or it raises the same error, or
  it returns the same snapshots. When it returns or raises, the store it leaves begins
  with \<open>h\<close>, object by object as the caller left it (the call has only appended its copies
  and written to them); and a second call with the same references, in the store the
  first call has left, ends as the first did, with the same snapshots or the same error,
  and again leaves the objects of the caller as they were.
\<close>

theorem LoanCalc_isolation:
  assumes "get_loan h lr = Inr l" and "get_budget h br = Inr b"
    and "get_payments h pr = Inr prs" and "list_all2 (denotes h) prs ps"
    and "get_exits h er = Inr es"
  shows "(LoanCalc_h h lr br pr er = None \<longleftrightarrow> LoanCalc l b ps es = None) \<and>
    (\<forall>e h'. LoanCalc_h h lr br pr er = Some (Inl (e, h')) \<longrightarrow>
       take (length h) h' = h \<and>
       LoanCalc l b ps es = Some (Inl e) \<and>
       (\<exists>h''. LoanCalc_h h' lr br pr er = Some (Inl (e, h'')) \<and>
          take (length h) h'' = h)) \<and>
    (\<forall>res h'. LoanCalc_h h lr br pr er = Some (Inr (res, h')) \<longrightarrow>
       take (length h) h' = h \<and>
       LoanCalc l b ps es = Some (Inr res) \<and>
       (\<exists>h''. LoanCalc_h h' lr br pr er = Some (Inr (res, h'')) \<and>
          take (length h) h'' = h))"
proof (intro conjI allI impI)
  note r = LoanCalc_sim [OF assms]
  show "LoanCalc_h h lr br pr er = None \<longleftrightarrow> LoanCalc l b ps es = None"
    using r by (cases "LoanCalc_h h lr br pr er"; cases "LoanCalc l b ps es") simp_all
  {
    fix e h'
    assume c: "LoanCalc_h h lr br pr er = Some (Inl (e, h'))"
    with r obtain y where y: "LoanCalc l b ps es = Some y"
      by (cases "LoanCalc l b ps es") simp_all
    with r c have v: "y = Inl e" and len: "length h \<le> length h'"
      and pre: "take (length h) h' = h"
      by (cases y; simp add: same_error_def)+
    from pre show "take (length h) h' = h" .
    from y v show "LoanCalc l b ps es = Some (Inl e)" by simp
    note r' = LoanCalc_sim_again [OF assms pre len]
    from r' y v obtain x where x: "LoanCalc_h h' lr br pr er = Some x"
      by (cases "LoanCalc_h h' lr br pr er") simp_all
    with r' y v obtain h'' where "x = Inl (e, h'')" "take (length h) h'' = h"
      by (cases x) auto
    with x show "\<exists>h''. LoanCalc_h h' lr br pr er = Some (Inl (e, h'')) \<and>
        take (length h) h'' = h"
      by blast
  }
  {
    fix res h'
    assume c: "LoanCalc_h h lr br pr er = Some (Inr (res, h'))"
    with r obtain y where y: "LoanCalc l b ps es = Some y"
      by (cases "LoanCalc l b ps es") simp_all
    with r c have v: "y = Inr res" and len: "length h \<le> length h'"
      and pre: "take (length h) h' = h"
      by (cases y; simp)+
    from pre show "take (length h) h' = h" .
    from y v show "LoanCalc l b ps es = Some (Inr res)" by simp
    note r' = LoanCalc_sim_again [OF assms pre len]
    from r' y v obtain x where x: "LoanCalc_h h' lr br pr er = Some x"
      by (cases "LoanCalc_h h' lr br pr er") simp_all
    with r' y v obtain h'' where "x = Inr (res, h'')" "take (length h) h'' = h"
      by (cases x) auto
    with x show "\<exists>h''. LoanCalc_h h' lr br pr er = Some (Inr (res, h'')) \<and>
        take (length h) h'' = h"
      by blast
  }
qed

lemmas store_defs = init_h_def snapshot_h_def exit_check_h_def reamortize_h_def lump_sum_h_def
  sweep_h_def accrue_h_def overflow_h_def annual_h_def charges_h_def step_h_def
  alloc_def put_def get_loan_def get_budget_def get_payment_def get_payments_def get_exits_def
  list_reverse_def list_pop_def

text \<open>
  In \<open>ex_store\<close> the loan of the call is also the new terms of the reamortizing payment
  of month 1. The call returns two snapshots in a store of ten objects: the five of the
  caller, as they were, and after them the copies of the loan, of the budget (grown at
  the end of the first month), of the list of payments (emptied) and of the exits, and
  the copy of the new terms (with the amount and the fixed period that the
  reamortization wrote). A second call in that store returns the same snapshots. In
  \<open>ex_store_zero\<close> the call raises \<^verbatim>\<open>ZeroDivisionError\<close> at the reamortization of month 1,
  after it has written the copy of the budget and the copy of the new terms; the six
  objects of the caller are as they were, and a second call raises the same error.
\<close>

theorem LoanCalc_isolation_witness:
  "LoanCalc_h ex_store 0 1 3 4 =
     Some (Inr
       ([\<lparr>loan_name = Some ''ARM'', principal_remaining = 10100, principal_paid = 10000,
           interest_paid = 201, length' = 1, monthly_payments = 10201\<rparr>,
         \<lparr>loan_name = Some ''ARM'', principal_remaining = 0, principal_paid = 20100,
           interest_paid = 100801 / 201, length' = 3, monthly_payments = 1020100 / 201\<rparr>],
        ex_store @
        [LoanObj ex_loan,
         BudgetObj (ex_budget\<lparr>monthly_income := 139711 / 10, monthly_expenses := 1050\<rparr>),
         PaymentList [],
         ExitList [1],
         LoanObj (ex_loan\<lparr>Loan.amount := 10000, Loan.fixed_period := 2\<rparr>)])) \<and>
   take (length ex_store)
     (ex_store @
      [LoanObj ex_loan,
       BudgetObj (ex_budget\<lparr>monthly_income := 139711 / 10, monthly_expenses := 1050\<rparr>),
       PaymentList [],
       ExitList [1],
       LoanObj (ex_loan\<lparr>Loan.amount := 10000, Loan.fixed_period := 2\<rparr>)]) = ex_store \<and>
   LoanCalc ex_loan ex_budget
     [\<lparr>type' = REAMORTIZING, amount = 100, time = 1, new_loan_terms = Some ex_loan\<rparr>] [1] =
     Some (Inr
       [\<lparr>loan_name = Some ''ARM'', principal_remaining = 10100, principal_paid = 10000,
          interest_paid = 201, length' = 1, monthly_payments = 10201\<rparr>,
        \<lparr>loan_name = Some ''ARM'', principal_remaining = 0, principal_paid = 20100,
          interest_paid = 100801 / 201, length' = 3, monthly_payments = 1020100 / 201\<rparr>]) \<and>
   (\<exists>h''. LoanCalc_h
       (ex_store @
        [LoanObj ex_loan,
         BudgetObj (ex_budget\<lparr>monthly_income := 139711 / 10, monthly_expenses := 1050\<rparr>),
         PaymentList [],
         ExitList [1],
         LoanObj (ex_loan\<lparr>Loan.amount := 10000, Loan.fixed_period := 2\<rparr>)]) 0 1 3 4 =
       Some (Inr
         ([\<lparr>loan_name = Some ''ARM'', principal_remaining = 10100, principal_paid = 10000,
             interest_paid = 201, length' = 1, monthly_payments = 10201\<rparr>,
           \<lparr>loan_name = Some ''ARM'', principal_remaining = 0, principal_paid = 20100,
             interest_paid = 100801 / 201, length' = 3, monthly_payments = 1020100 / 201\<rparr>],
          h'')) \<and>
       take (length ex_store) h'' = ex_store) \<and>
   LoanCalc_h ex_store_zero 0 1 3 4 =
     Some (Inl
       (ZeroDivisionError,
        ex_store_zero @
        [LoanObj ex_loan,
         BudgetObj (ex_budget\<lparr>monthly_income := 139711 / 10, monthly_expenses := 1050\<rparr>),
         PaymentList [],
         ExitList [1],
         LoanObj (ex_loan\<lparr>rate := 0, Loan.amount := 10000\<rparr>)])) \<and>
   take (length ex_store_zero)
     (ex_store_zero @
      [LoanObj ex_loan,
       BudgetObj (ex_budget\<lparr>monthly_income := 139711 / 10, monthly_expenses := 1050\<rparr>),
       PaymentList [],
       ExitList [1],
       LoanObj (ex_loan\<lparr>rate := 0, Loan.amount := 10000\<rparr>)]) = ex_store_zero \<and>
   LoanCalc ex_loan ex_budget
     [\<lparr>type' = REAMORTIZING, amount = 100, time = 1,
       new_loan_terms = Some (ex_loan\<lparr>rate := 0\<rparr>)\<rparr>] [1] =
     Some (Inl ZeroDivisionError) \<and>
   (\<exists>h''. LoanCalc_h
       (ex_store_zero @
        [LoanObj ex_loan,
         BudgetObj (ex_budget\<lparr>monthly_income := 139711 / 10, monthly_expenses := 1050\<rparr>),
         PaymentList [],
         ExitList [1],
         LoanObj (ex_loan\<lparr>rate := 0, Loan.amount := 10000\<rparr>)]) 0 1 3 4 =
       Some (Inl (ZeroDivisionError, h'')) \<and>
       take (length ex_store_zero) h'' = ex_store_zero)"
proof -
  let ?res = "[\<lparr>loan_name = Some ''ARM'', principal_remaining = 10100, principal_paid = 10000,
           interest_paid = 201, length' = 1, monthly_payments = 10201\<rparr>,
         \<lparr>loan_name = Some ''ARM'', principal_remaining = 0, principal_paid = 20100,
           interest_paid = 100801 / 201, length' = 3, monthly_payments = 1020100 / 201\<rparr>]"
  let ?h = "ex_store @
        [LoanObj ex_loan,
         BudgetObj (ex_budget\<lparr>monthly_income := 139711 / 10, monthly_expenses := 1050\<rparr>),
         PaymentList [],
         ExitList [1],
         LoanObj (ex_loan\<lparr>Loan.amount := 10000, Loan.fixed_period := 2\<rparr>)]"
  let ?hz = "ex_store_zero @
        [LoanObj ex_loan,
         BudgetObj (ex_budget\<lparr>monthly_income := 139711 / 10, monthly_expenses := 1050\<rparr>),
         PaymentList [],
         ExitList [1],
         LoanObj (ex_loan\<lparr>rate := 0, Loan.amount := 10000\<rparr>)]"
  have ev: "LoanCalc_h ex_store 0 1 3 4 = Some (Inr (?res, ?h))"
    by (simp add: LoanCalc_h_def while_loop_h.simps store_defs ex_store_def body_defs ex_defs
        power2_eq_square)
  have a: "get_loan ex_store 0 = Inr ex_loan" "get_budget ex_store 1 = Inr ex_budget"
    "get_payments ex_store 3 = Inr [2]" "get_exits ex_store 4 = Inr [1]"
    by (simp_all add: ex_store_def get_loan_def get_budget_def get_payments_def get_exits_def)
  have d: "list_all2 (denotes ex_store) [2]
      [\<lparr>type' = REAMORTIZING, amount = 100, time = 1, new_loan_terms = Some ex_loan\<rparr>]"
    by (simp add: denotes_def deref_payment_def ex_store_def get_payment_def get_loan_def)
  have evz: "LoanCalc_h ex_store_zero 0 1 3 4 = Some (Inl (ZeroDivisionError, ?hz))"
    by (simp add: LoanCalc_h_def while_loop_h.simps store_defs ex_store_zero_def body_defs
        ex_defs power2_eq_square)
  have az: "get_loan ex_store_zero 0 = Inr ex_loan"
    "get_budget ex_store_zero 1 = Inr ex_budget"
    "get_payments ex_store_zero 3 = Inr [2]" "get_exits ex_store_zero 4 = Inr [1]"
    by (simp_all add: ex_store_zero_def get_loan_def get_budget_def get_payments_def
        get_exits_def)
  have dz: "list_all2 (denotes ex_store_zero) [2]
      [\<lparr>type' = REAMORTIZING, amount = 100, time = 1,
        new_loan_terms = Some (ex_loan\<lparr>rate := 0\<rparr>)\<rparr>]"
    by (simp add: denotes_def deref_payment_def ex_store_zero_def get_payment_def
        get_loan_def)
  from LoanCalc_isolation [OF a(1,2,3) d a(4)] ev
  have 1: "take (length ex_store) ?h = ex_store \<and>
    LoanCalc ex_loan ex_budget
     [\<lparr>type' = REAMORTIZING, amount = 100, time = 1, new_loan_terms = Some ex_loan\<rparr>] [1] =
     Some (Inr ?res) \<and>
    (\<exists>h''. LoanCalc_h ?h 0 1 3 4 = Some (Inr (?res, h'')) \<and>
       take (length ex_store) h'' = ex_store)"
    by simp
  from LoanCalc_isolation [OF az(1,2,3) dz az(4)] evz
  have 2: "take (length ex_store_zero) ?hz = ex_store_zero \<and>
    LoanCalc ex_loan ex_budget
     [\<lparr>type' = REAMORTIZING, amount = 100, time = 1,
       new_loan_terms = Some (ex_loan\<lparr>rate := 0\<rparr>)\<rparr>] [1] =
     Some (Inl ZeroDivisionError) \<and>
    (\<exists>h''. LoanCalc_h ?hz 0 1 3 4 = Some (Inl (ZeroDivisionError, h'')) \<and>
       take (length ex_store_zero) h'' = ex_store_zero)"
    by simp
  from ev evz 1 2 show ?thesis by (simp only: simp_thms)
qed

section \<open>Properties of the payment calculator\<close>

text \<open>
  C9 fails as written: at a rate of 1200 percent and a term of 1024 months the power
  \<open>(1 + i)^term\<close> is \<open>2^1024\<close>, which is not 1, and the call is not defined:
  \<^verbatim>\<open>math.pow\<close> raises \<^verbatim>\<open>OverflowError\<close>.
\<close>

theorem GetMonthlyPayment_overflow_counterexample:
  "(1 + 1200 / (12 * 100) :: real) ^ 1024 \<noteq> 1 \<and>
   GetMonthlyPayment \<lparr>Loan.name = None, amount = 100000, rate = 1200, term' = 1024,
       fixed_period = 1024, var_rate = None\<rparr> = Inl OverflowError"
  by (simp add: GetMonthlyPayment_unfold math_pow_def float_overflow_def)

text \<open>
  C9, amended. With an annual rate of 0 and a term that a float can hold, the monthly
  rate is 0, the denominator \<open>(1+i)^term - 1\<close> is zero and the call fails with a
  division by zero: no payment is returned, in particular not \<open>amount / term\<close>. In any
  arithmetic, with \<open>i\<close> the computed monthly rate: a fault of \<^verbatim>\<open>math.pow\<close> is the fault of
  the call; when \<^verbatim>\<open>math.pow\<close> returns \<open>p\<close>, the call fails with a division by zero if
  the computed \<open>p - 1\<close> is zero, and otherwise returns \<open>amount * (i * p / (p - 1))\<close> as
  the arithmetic computes it. The function reads its arguments only.
\<close>

theorem GetMonthlyPayment_formula:
  "(Loan.rate l = 0 \<and> \<not> float_overflow (of_int (term' l)) \<longrightarrow>
      GetMonthlyPayment l = Inl ZeroDivisionError) \<and>
   (py_div ar r (f_of_int ar (12 * 100)) = Inr i \<and>
    f_pow ar (f_add ar (f_of_int ar 1) i) n = Inl e \<longrightarrow>
      GetMonthlyPayment_on ar a r n = Inl e) \<and>
   (py_div ar r (f_of_int ar (12 * 100)) = Inr i \<and>
    f_pow ar (f_add ar (f_of_int ar 1) i) n = Inr p \<longrightarrow>
      GetMonthlyPayment_on ar a r n =
        (if f_is_zero ar (f_sub ar p (f_of_int ar 1)) then Inl ZeroDivisionError
         else Inr (f_mul ar a
                (f_div ar (f_mul ar i p) (f_sub ar p (f_of_int ar 1))))))"
proof (intro conjI impI)
  assume "Loan.rate l = 0 \<and> \<not> float_overflow (of_int (term' l))"
  moreover have "\<not> float_overflow 1" by (simp add: float_overflow_small)
  ultimately show "GetMonthlyPayment l = Inl ZeroDivisionError"
    by (simp add: GetMonthlyPayment_unfold math_pow_def)
next
  assume "py_div ar r (f_of_int ar (12 * 100)) = Inr i \<and>
    f_pow ar (f_add ar (f_of_int ar 1) i) n = Inl e"
  then show "GetMonthlyPayment_on ar a r n = Inl e"
    by (simp add: GetMonthlyPayment_on_def)
next
  assume "py_div ar r (f_of_int ar (12 * 100)) = Inr i \<and>
    f_pow ar (f_add ar (f_of_int ar 1) i) n = Inr p"
  then show "GetMonthlyPayment_on ar a r n =
        (if f_is_zero ar (f_sub ar p (f_of_int ar 1)) then Inl ZeroDivisionError
         else Inr (f_mul ar a
                (f_div ar (f_mul ar i p) (f_sub ar p (f_of_int ar 1)))))"
    by (simp add: GetMonthlyPayment_on_def py_div_def)
qed

theorem GetMonthlyPayment_formula_witness:
  "GetMonthlyPayment \<lparr>Loan.name = None, amount = 20100, rate = 0, term' = 2,
       fixed_period = 2, var_rate = None\<rparr> = Inl ZeroDivisionError \<and>
   py_div real_arith 1200 (f_of_int real_arith (12 * 100)) = Inr 1 \<and>
   f_pow real_arith (f_add real_arith (f_of_int real_arith 1) 1) 1024 = Inl OverflowError \<and>
   GetMonthlyPayment_on real_arith 20100 1200 1024 = Inl OverflowError \<and>
   py_div real_arith 12 (f_of_int real_arith (12 * 100)) = Inr (1 / 100) \<and>
   f_pow real_arith (f_add real_arith (f_of_int real_arith 1) (1 / 100)) 2 =
     Inr (10201 / 10000) \<and>
   GetMonthlyPayment_on real_arith 20100 12 2 = Inr 10201"
proof -
  have z: "GetMonthlyPayment \<lparr>Loan.name = None, amount = 20100, rate = 0, term' = 2,
       fixed_period = 2, var_rate = None\<rparr> = Inl ZeroDivisionError"
    using GetMonthlyPayment_formula [where l = "\<lparr>Loan.name = None, amount = 20100, rate = 0,
       term' = 2, fixed_period = 2, var_rate = None\<rparr>", THEN conjunct1]
    by (simp add: float_overflow_def)
  have d1: "py_div real_arith 1200 (f_of_int real_arith (12 * 100)) = Inr 1"
    and d2: "py_div real_arith 12 (f_of_int real_arith (12 * 100)) = Inr (1 / 100)"
    by (simp_all add: py_div_def real_arith_def)
  have p1: "f_pow real_arith (f_add real_arith (f_of_int real_arith 1) 1) 1024 =
      Inl OverflowError"
    by (simp add: real_arith_def math_pow_def float_overflow_def)
  have p2: "f_pow real_arith (f_add real_arith (f_of_int real_arith 1) (1 / 100)) 2 =
      Inr (10201 / 10000)"
    by (simp add: real_arith_def math_pow_def float_overflow_def power2_eq_square)
  have o: "GetMonthlyPayment_on real_arith 20100 1200 1024 = Inl OverflowError"
    using GetMonthlyPayment_formula [where ar = real_arith and r = 1200 and i = 1
        and n = 1024 and e = OverflowError and a = 20100] d1 p1
    by simp
  have v: "GetMonthlyPayment_on real_arith 20100 12 2 = Inr 10201"
    using GetMonthlyPayment_formula [where ar = real_arith and r = 12 and i = "1 / 100"
        and n = 2 and p = "10201 / 10000" and a = 20100] d2 p2
    by (simp add: real_arith_def)
  from z d1 d2 p1 p2 o v show ?thesis by simp
qed

end
